theory Spec2Isabelle
  imports Complex_Main "HOL-Library.AList"
begin

section \<open>JSON values and the runtime's coercions\<close>

text \<open>
  The server (\<^verbatim>\<open>server.js\<close>) keeps, for every Folding@home client it talks to, a
  document decoded from JSON and patched by JSON frames. Values are modelled as JSON
  trees, that is, up to what \<^verbatim>\<open>JSON.stringify\<close> observes of a JavaScript value:
  \<^item> a number is a rational, the value of the double (every finite double is one);
    \<^verbatim>\<open>Number.isInteger\<close> holds of the integral ones; the infinities that an
    overflowing literal decodes to are outside the model;
  \<^item> a string is a list of 8-bit characters, and \<^verbatim>\<open>length\<close> counts them;
  \<^item> an object is an association list of its own properties; the order of the entries
    is representation only, lookup takes the first entry of a key;
  \<^item> an array is a list; a hole of a sparse array is \<open>JNull\<close> (what
    \<^verbatim>\<open>JSON.stringify\<close> prints for it, and what every test of the code below treats
    like \<^verbatim>\<open>undefined\<close>), and a property of an array that is neither an index nor
    \<^verbatim>\<open>length\<close> is not part of the value (\<^verbatim>\<open>JSON.stringify\<close> drops it).
  Properties inherited from \<^verbatim>\<open>Object.prototype\<close> and \<^verbatim>\<open>Array.prototype\<close>
  (\<^verbatim>\<open>__proto__\<close>, \<^verbatim>\<open>constructor\<close>, \<^verbatim>\<open>toString\<close>, ...) are outside the model:
  property access is access to own properties.
\<close>

datatype json =
    JNull
  | JBool bool
  | JNum rat
  | JStr string
  | JArr "json list"
  | JObj "(string \<times> json) list"

text \<open>
  Two coercions of the language are large builtins that depend on the double-precision
  rendering of numbers: \<^verbatim>\<open>Number::toString\<close> (a number used as a property name) and
  \<^verbatim>\<open>StringToNumber\<close> (a string compared with a number). They are parameters of the
  model. \<open>stringToNumber rt s = None\<close> stands for a result that is \<^verbatim>\<open>NaN\<close> or
  infinite: the code only ever asks whether the result lies in a finite interval.
\<close>

record runtime =
  numberToString :: "rat \<Rightarrow> string"
  stringToNumber :: "string \<Rightarrow> rat option"

text \<open>
  A runtime for evaluating the examples. It prints an integer in decimal (as the
  language does for every integer below \<open>10^21\<close> in magnitude) and reads a string of
  decimal digits, or the empty string, as the number it denotes; it is not the
  language's runtime on other arguments, and no example below reaches one.
\<close>

fun digitChar :: "nat \<Rightarrow> char" where
  "digitChar n = (''0123456789'' ! (n mod 10))"

fun decimal :: "nat \<Rightarrow> string" where
  "decimal n = (if n < 10 then [digitChar n] else decimal (n div 10) @ [digitChar n])"

declare decimal.simps [simp del]

definition digitVal :: "char \<Rightarrow> nat option" where
  "digitVal = map_of
     [(CHR ''0'', 0), (CHR ''1'', 1), (CHR ''2'', 2), (CHR ''3'', 3), (CHR ''4'', 4),
      (CHR ''5'', 5), (CHR ''6'', 6), (CHR ''7'', 7), (CHR ''8'', 8), (CHR ''9'', 9)]"

fun digitsVal :: "nat \<Rightarrow> string \<Rightarrow> nat option" where
  "digitsVal acc [] = Some acc"
| "digitsVal acc (c # cs) =
     (case digitVal c of None \<Rightarrow> None | Some d \<Rightarrow> digitsVal (10 * acc + d) cs)"

definition exampleRuntime :: runtime where
  "exampleRuntime =
     \<lparr> numberToString =
         (\<lambda>r. if r < 0 then CHR ''-'' # decimal (nat \<lfloor>- r\<rfloor>) else decimal (nat \<lfloor>r\<rfloor>)),
       stringToNumber = (\<lambda>s. map_option of_nat (digitsVal 0 s)) \<rparr>"

definition Number_isInteger :: "json \<Rightarrow> bool" where
  "Number_isInteger v = (case v of JNum r \<Rightarrow> of_int \<lfloor>r\<rfloor> = r | _ \<Rightarrow> False)"

definition Array_isArray :: "json \<Rightarrow> bool" where
  "Array_isArray v = (case v of JArr _ \<Rightarrow> True | _ \<Rightarrow> False)"

text \<open>\<^verbatim>\<open>typeof v === 'object'\<close> on a JSON value (\<^verbatim>\<open>typeof null\<close> is \<^verbatim>\<open>'object'\<close> too).\<close>

definition typeofObject :: "json \<Rightarrow> bool" where
  "typeofObject v = (case v of JNull \<Rightarrow> True | JArr _ \<Rightarrow> True | JObj _ \<Rightarrow> True | _ \<Rightarrow> False)"

text \<open>\<^verbatim>\<open>!v\<close>: the falsy JSON values are null, false, 0 and the empty string.\<close>

definition falsy :: "json \<Rightarrow> bool" where
  "falsy v = (v = JNull \<or> v = JBool False \<or> v = JNum 0 \<or> v = JStr [])"

fun joinWith :: "string \<Rightarrow> string list \<Rightarrow> string" where
  "joinWith sep [] = []"
| "joinWith sep [s] = s"
| "joinWith sep (s # t # ss) = s @ sep @ joinWith sep (t # ss)"

text \<open>
  \<^verbatim>\<open>ToString\<close>, which is also \<^verbatim>\<open>ToPropertyKey\<close> on these values: an array prints its
  elements joined by commas, null elements as the empty string; a plain object prints
  as \<^verbatim>\<open>[object Object]\<close>.
\<close>

fun toString :: "runtime \<Rightarrow> json \<Rightarrow> string" where
  "toString rt JNull = ''null''"
| "toString rt (JBool b) = (if b then ''true'' else ''false'')"
| "toString rt (JNum r) = numberToString rt r"
| "toString rt (JStr s) = s"
| "toString rt (JArr xs) = joinWith '','' (map (\<lambda>x. if x = JNull then [] else toString rt x) xs)"
| "toString rt (JObj kvs) = ''[object Object]''"

text \<open>\<^verbatim>\<open>ToNumber\<close>; \<open>None\<close> is \<^verbatim>\<open>NaN\<close> or an infinity.\<close>

fun toNumber :: "runtime \<Rightarrow> json \<Rightarrow> rat option" where
  "toNumber rt JNull = Some 0"
| "toNumber rt (JBool b) = Some (if b then 1 else 0)"
| "toNumber rt (JNum r) = Some r"
| "toNumber rt (JStr s) = stringToNumber rt s"
| "toNumber rt (JArr xs) = stringToNumber rt (toString rt (JArr xs))"
| "toNumber rt (JObj kvs) = None"

subsection \<open>Property names of arrays\<close>

text \<open>
  A string is an array index when it is the decimal numeral, without leading zeros, of
  an integer below \<open>2^32 - 1\<close>.
\<close>

definition canonicalIndex :: "string \<Rightarrow> nat option" where
  "canonicalIndex s =
     (if s = [] \<or> (hd s = CHR ''0'' \<and> s \<noteq> ''0'') then None
      else case digitsVal 0 s of
             None \<Rightarrow> None
           | Some n \<Rightarrow> if n < 4294967295 then Some n else None)"

datatype arrayKey = Index nat | Length | Hidden

text \<open>
  What a property key names on an array: an element, \<^verbatim>\<open>length\<close>, or a property
  that is not part of the JSON value. A number is an index exactly when it is an integer
  in \<open>[0, 2^32 - 1)\<close>, and never \<^verbatim>\<open>length\<close>.
\<close>

definition arrayKey :: "runtime \<Rightarrow> json \<Rightarrow> arrayKey" where
  "arrayKey rt k =
     (case k of
        JNum r \<Rightarrow> if of_int \<lfloor>r\<rfloor> = r \<and> 0 \<le> r \<and> r < 4294967295 then Index (nat \<lfloor>r\<rfloor>) else Hidden
      | _ \<Rightarrow> (let p = toString rt k in
              if p = ''length'' then Length
              else case canonicalIndex p of Some i \<Rightarrow> Index i | None \<Rightarrow> Hidden))"

definition getProp :: "runtime \<Rightarrow> json \<Rightarrow> json \<Rightarrow> json option" where
  \<comment> \<open>\<^verbatim>\<open>obj[key]\<close>; \<open>None\<close> is \<^verbatim>\<open>undefined\<close>\<close>
  "getProp rt obj k =
     (case obj of
        JObj kvs \<Rightarrow> map_of kvs (toString rt k)
      | JArr xs \<Rightarrow>
          (case arrayKey rt k of
             Index i \<Rightarrow> if i < length xs then Some (xs ! i) else None
           | Length \<Rightarrow> Some (JNum (of_nat (length xs)))
           | Hidden \<Rightarrow> None)
      | _ \<Rightarrow> None)"

definition arrayStore :: "'a \<Rightarrow> 'a list \<Rightarrow> nat \<Rightarrow> 'a \<Rightarrow> 'a list" where
  \<comment> \<open>\<^verbatim>\<open>arr[i] = v\<close>: a store past the end leaves holes before it\<close>
  "arrayStore hole xs i v =
     (if i < length xs then xs[i := v] else xs @ replicate (i - length xs) hole @ [v])"

definition putProp :: "runtime \<Rightarrow> json \<Rightarrow> json \<Rightarrow> json \<Rightarrow> json" where
  \<comment> \<open>the container \<open>obj\<close> once \<^verbatim>\<open>obj[key]\<close> is the (created or updated) container \<open>c\<close>\<close>
  "putProp rt obj k c =
     (case obj of
        JObj kvs \<Rightarrow> JObj (AList.update (toString rt k) c kvs)
      | JArr xs \<Rightarrow>
          (case arrayKey rt k of
             Index i \<Rightarrow> JArr (arrayStore JNull xs i c)
           | _ \<Rightarrow> JArr xs)
      | _ \<Rightarrow> obj)"

section \<open>The patcher: \<^verbatim>\<open>normalizePropertyKey\<close> and \<^verbatim>\<open>applyStateUpdate\<close>\<close>

definition normalizePropertyKey :: "json \<Rightarrow> json" where
  "normalizePropertyKey key =
     (case key of
        JStr s \<Rightarrow>
          if 0 < length s \<and> length s \<le> 16
          then JStr (map (\<lambda>c. if c = CHR ''-'' then CHR ''_'' else c) s)
          else key
      | _ \<Rightarrow> key)"

text \<open>
  The only exception the modelled part of the language can raise inside
  \<^verbatim>\<open>applyStateUpdate\<close>: assigning to the \<^verbatim>\<open>length\<close> of an array a value that is
  not an integer in \<open>[0, 2^32)\<close> is a \<^verbatim>\<open>RangeError\<close> (invalid array length).
  \<^verbatim>\<open>TypeError\<close> is what \<^verbatim>\<open>JSON.stringify\<close> raises on a cyclic value; a JSON tree is
  never cyclic, and only the heap model below, where a value can be, has this case.
\<close>

datatype error = RangeError | TypeError

text \<open>
  The result of running the body on the working copy: \<open>Done c\<close> when the end of the
  function is reached, with \<open>c\<close> the object that \<^verbatim>\<open>currentObject\<close> referred to, after
  the mutations; \<open>Blocked\<close> for the early \<^verbatim>\<open>return currentState\<close>; \<open>Raised\<close> for
  an exception.
\<close>

datatype outcome = Done json | Blocked | Raised error

definition isContainer :: "json \<Rightarrow> bool" where
  \<comment> \<open>the negation of the test of lines 113-114 and 136-137\<close>
  "isContainer v = (\<not> (v = JNull \<or> (\<not> typeofObject v \<and> \<not> Array_isArray v)))"

definition newContainer :: "json \<Rightarrow> json" where
  \<comment> \<open>line 123\<close>
  "newContainer nextElement =
     (if nextElement \<noteq> JNull \<and> Number_isInteger nextElement then JArr [] else JObj [])"

definition deleteAt :: "'a list \<Rightarrow> nat \<Rightarrow> 'a list" where
  \<comment> \<open>\<^verbatim>\<open>arr.splice(i, 1)\<close> for \<open>i\<close> in range\<close>
  "deleteAt xs i = take i xs @ drop (Suc i) xs"

definition setLength :: "runtime \<Rightarrow> json list \<Rightarrow> json \<Rightarrow> outcome" where
  \<comment> \<open>\<^verbatim>\<open>arr.length = v\<close>\<close>
  "setLength rt xs v =
     (case toNumber rt v of
        None \<Rightarrow> Raised RangeError
      | Some r \<Rightarrow>
          if of_int \<lfloor>r\<rfloor> = r \<and> 0 \<le> r \<and> r < 4294967296
          then Done (JArr (take (nat \<lfloor>r\<rfloor>) xs @ replicate (nat \<lfloor>r\<rfloor> - length xs) JNull))
          else Raised RangeError)"

definition arrayAssign :: "runtime \<Rightarrow> json list \<Rightarrow> json \<Rightarrow> json \<Rightarrow> outcome" where
  \<comment> \<open>\<^verbatim>\<open>arr[key] = v\<close>, line 162\<close>
  "arrayAssign rt xs k v =
     (case arrayKey rt k of
        Index i \<Rightarrow> Done (JArr (arrayStore JNull xs i v))
      | Length \<Rightarrow> setLength rt xs v
      | Hidden \<Rightarrow> Done (JArr xs))"

text \<open>Lines 135-173: the update at the target location.\<close>

definition finalUpdate :: "runtime \<Rightarrow> json \<Rightarrow> json \<Rightarrow> json \<Rightarrow> outcome" where
  "finalUpdate rt currentObject key newValue =
     (if \<not> isContainer currentObject then Blocked
      else
        let targetKey = normalizePropertyKey key in
        case currentObject of
          JArr xs \<Rightarrow>
            if targetKey = JNum (- 1) then Done (JArr (xs @ [newValue]))
            else if targetKey = JNum (- 2) then
              (case newValue of JArr ys \<Rightarrow> Done (JArr (xs @ ys)) | _ \<Rightarrow> Done (JArr xs))
            else if newValue = JNull then
              (case toNumber rt targetKey of
                 None \<Rightarrow> Done (JArr xs)
               | Some r \<Rightarrow>
                   if 0 \<le> r \<and> r < of_nat (length xs)
                   then Done (JArr (deleteAt xs (nat \<lfloor>r\<rfloor>)))
                   else Done (JArr xs))
            else arrayAssign rt xs targetKey newValue
        | JObj kvs \<Rightarrow>
            if newValue = JNull then Done (JObj (AList.delete (toString rt targetKey) kvs))
            else Done (JObj (AList.update (toString rt targetKey) newValue kvs))
        | _ \<Rightarrow> Blocked)"

text \<open>
  Lines 107-133, the loop, as a recursion over the elements of the update array that
  are still to be read: with three or more left, the first is a path segment; with two
  left, they are the target key and the new value. \<^verbatim>\<open>currentObject\<close> is a reference
  into the working copy, so a mutation below it is a mutation of the copy: the model
  returns the mutated object and its parent stores it back under the same key.
\<close>

fun walk :: "runtime \<Rightarrow> json \<Rightarrow> json list \<Rightarrow> outcome" where
  "walk rt currentObject (seg # nextElement # x # rest) =
     (if \<not> isContainer currentObject then Blocked
      else
        let pathKey = normalizePropertyKey seg;
            child = (case getProp rt currentObject pathKey of
                       None \<Rightarrow> newContainer nextElement
                     | Some c \<Rightarrow> if c = JNull then newContainer nextElement else c)
        in if child = JNull then Blocked
           else case walk rt child (nextElement # x # rest) of
                  Done c \<Rightarrow> Done (putProp rt currentObject pathKey c)
                | Blocked \<Rightarrow> Blocked
                | Raised e \<Rightarrow> Raised e)"
| "walk rt currentObject [key, newValue] = finalUpdate rt currentObject key newValue"
| "walk rt currentObject [x] = Blocked"
| "walk rt currentObject [] = Blocked"

definition isPlainObject :: "json \<Rightarrow> bool" where
  \<comment> \<open>the negation of the test of line 94\<close>
  "isPlainObject v = (\<not> (falsy v \<or> \<not> typeofObject v \<or> Array_isArray v))"

definition jsonClone :: "json \<Rightarrow> json" where
  \<comment> \<open>\<^verbatim>\<open>JSON.parse(JSON.stringify(v))\<close>: a JSON tree is rebuilt as it is\<close>
  "jsonClone v = v"

text \<open>
  \<^verbatim>\<open>applyStateUpdate(currentState, updateArray)\<close>: \<open>Inr\<close> the value returned, \<open>Inl\<close>
  the exception raised.
\<close>

definition arrayElements :: "json \<Rightarrow> json list" where
  "arrayElements v = (case v of JArr xs \<Rightarrow> xs | _ \<Rightarrow> [])"

definition applyStateUpdate :: "runtime \<Rightarrow> json \<Rightarrow> json \<Rightarrow> error + json" where
  "applyStateUpdate rt currentState updateArray =
     (if \<not> Array_isArray updateArray \<or> length (arrayElements updateArray) < 2
      then Inr currentState
      else
        let currentState' = (if isPlainObject currentState then currentState else JObj []);
            state = jsonClone currentState'
        in (case walk rt state (arrayElements updateArray) of
              Done state' \<Rightarrow> Inr state'
            | Blocked \<Rightarrow> Inr currentState'
            | Raised e \<Rightarrow> Inl e))"

section \<open>The patcher on a heap\<close>

text \<open>
  Whether \<^verbatim>\<open>applyStateUpdate\<close> mutates its argument is a question about references.
  Here objects and arrays are cells of a heap, a reference is the number of a cell, and
  allocation appends a cell. The document is a value of the heap. The update array is
  decoded from a frame and only read, so it stays a JSON tree; its last element enters
  the heap where lines 149, 153, 162 and 171 store it.
\<close>

type_synonym addr = nat

datatype hval = HNull | HBool bool | HNum rat | HStr string | HRef addr

datatype cell = CObj "(string \<times> hval) list" | CArr "hval list"

type_synonym heap = "cell list"

text \<open>\<^verbatim>\<open>JSON.parse\<close> of the text of a JSON tree: every object and array is a new cell.\<close>

fun parse :: "heap \<Rightarrow> json \<Rightarrow> heap \<times> hval"
  and parseList :: "heap \<Rightarrow> json list \<Rightarrow> heap \<times> hval list"
  and parseFields :: "heap \<Rightarrow> (string \<times> json) list \<Rightarrow> heap \<times> (string \<times> hval) list"
where
  "parse h JNull = (h, HNull)"
| "parse h (JBool b) = (h, HBool b)"
| "parse h (JNum r) = (h, HNum r)"
| "parse h (JStr s) = (h, HStr s)"
| "parse h (JArr xs) = (let (h', vs) = parseList h xs in (h' @ [CArr vs], HRef (length h')))"
| "parse h (JObj kvs) = (let (h', fs) = parseFields h kvs in (h' @ [CObj fs], HRef (length h')))"
| "parseList h [] = (h, [])"
| "parseList h (x # xs) =
     (let (h1, v) = parse h x; (h2, vs) = parseList h1 xs in (h2, v # vs))"
| "parseFields h [] = (h, [])"
| "parseFields h ((k, x) # kvs) =
     (let (h1, v) = parse h x; (h2, fs) = parseFields h1 kvs in (h2, (k, v) # fs))"

text \<open>
  \<^verbatim>\<open>JSON.stringify\<close>, as the tree of the text it prints. The builtin follows references
  and raises on a cyclic value; here it follows at most \<open>fuel\<close> references in a row and
  answers \<open>None\<close> when that is not enough, which is the case of a cyclic value for
  every \<open>fuel\<close>.
\<close>

fun stringify :: "nat \<Rightarrow> heap \<Rightarrow> hval \<Rightarrow> json option" where
  "stringify 0 h v = None"
| "stringify (Suc fuel) h HNull = Some JNull"
| "stringify (Suc fuel) h (HBool b) = Some (JBool b)"
| "stringify (Suc fuel) h (HNum r) = Some (JNum r)"
| "stringify (Suc fuel) h (HStr s) = Some (JStr s)"
| "stringify (Suc fuel) h (HRef a) =
     (if a < length h then
        (case h ! a of
           CArr vs \<Rightarrow> map_option JArr (those (map (stringify fuel h) vs))
         | CObj fs \<Rightarrow>
             map_option JObj
               (those (map (\<lambda>(k, v). map_option (Pair k) (stringify fuel h v)) fs)))
      else None)"

definition isContainer_heap :: "heap \<Rightarrow> hval \<Rightarrow> bool" where
  "isContainer_heap h v = (case v of HRef a \<Rightarrow> a < length h | _ \<Rightarrow> False)"

definition isPlainObject_heap :: "heap \<Rightarrow> hval \<Rightarrow> bool" where
  "isPlainObject_heap h v =
     (case v of
        HRef a \<Rightarrow> a < length h \<and> (case h ! a of CObj fs \<Rightarrow> True | CArr vs \<Rightarrow> False)
      | _ \<Rightarrow> False)"

definition addrOf :: "hval \<Rightarrow> addr" where
  "addrOf v = (case v of HRef a \<Rightarrow> a | _ \<Rightarrow> 0)"

definition getProp_heap :: "runtime \<Rightarrow> heap \<Rightarrow> addr \<Rightarrow> json \<Rightarrow> hval option" where
  "getProp_heap rt h a k =
     (case h ! a of
        CObj fs \<Rightarrow> map_of fs (toString rt k)
      | CArr vs \<Rightarrow>
          (case arrayKey rt k of
             Index i \<Rightarrow> if i < length vs then Some (vs ! i) else None
           | Length \<Rightarrow> Some (HNum (of_nat (length vs)))
           | Hidden \<Rightarrow> None))"

definition putProp_heap :: "runtime \<Rightarrow> heap \<Rightarrow> addr \<Rightarrow> json \<Rightarrow> hval \<Rightarrow> heap" where
  \<comment> \<open>\<^verbatim>\<open>obj[key] = v\<close> for the cell \<open>a\<close>, \<open>key\<close> not being the length of an array\<close>
  "putProp_heap rt h a k v =
     h[a := (case h ! a of
               CObj fs \<Rightarrow> CObj (AList.update (toString rt k) v fs)
             | CArr vs \<Rightarrow>
                 (case arrayKey rt k of
                    Index i \<Rightarrow> CArr (arrayStore HNull vs i v)
                  | _ \<Rightarrow> CArr vs))]"

definition newContainer_heap :: "json \<Rightarrow> cell" where
  "newContainer_heap nextElement =
     (if nextElement \<noteq> JNull \<and> Number_isInteger nextElement then CArr [] else CObj [])"

datatype outcome_heap = HDone | HBlocked | HRaised error

definition finalUpdate_heap ::
  "runtime \<Rightarrow> heap \<Rightarrow> hval \<Rightarrow> json \<Rightarrow> json \<Rightarrow> heap \<times> outcome_heap" where
  "finalUpdate_heap rt h currentObject key newValue =
     (if \<not> isContainer_heap h currentObject then (h, HBlocked)
      else
        let a = addrOf currentObject; targetKey = normalizePropertyKey key in
        case h ! a of
          CArr vs \<Rightarrow>
            if targetKey = JNum (- 1) then
              (let (h', v) = parse h newValue in (h'[a := CArr (vs @ [v])], HDone))
            else if targetKey = JNum (- 2) then
              (case newValue of
                 JArr ys \<Rightarrow> (let (h', ws) = parseList h ys in (h'[a := CArr (vs @ ws)], HDone))
               | _ \<Rightarrow> (h, HDone))
            else if newValue = JNull then
              (case toNumber rt targetKey of
                 None \<Rightarrow> (h, HDone)
               | Some r \<Rightarrow>
                   if 0 \<le> r \<and> r < of_nat (length vs)
                   then (h[a := CArr (deleteAt vs (nat \<lfloor>r\<rfloor>))], HDone)
                   else (h, HDone))
            else
              (case arrayKey rt targetKey of
                 Index i \<Rightarrow>
                   (let (h', v) = parse h newValue
                    in (h'[a := CArr (arrayStore HNull vs i v)], HDone))
               | Length \<Rightarrow>
                   (case toNumber rt newValue of
                      None \<Rightarrow> (h, HRaised RangeError)
                    | Some r \<Rightarrow>
                        if of_int \<lfloor>r\<rfloor> = r \<and> 0 \<le> r \<and> r < 4294967296
                        then (h[a := CArr (take (nat \<lfloor>r\<rfloor>) vs
                                          @ replicate (nat \<lfloor>r\<rfloor> - length vs) HNull)], HDone)
                        else (h, HRaised RangeError))
               | Hidden \<Rightarrow> (h, HDone))
        | CObj fs \<Rightarrow>
            if newValue = JNull
            then (h[a := CObj (AList.delete (toString rt targetKey) fs)], HDone)
            else (let (h', v) = parse h newValue
                  in (h'[a := CObj (AList.update (toString rt targetKey) v fs)], HDone)))"

fun walk_heap :: "runtime \<Rightarrow> heap \<Rightarrow> hval \<Rightarrow> json list \<Rightarrow> heap \<times> outcome_heap" where
  "walk_heap rt h currentObject (seg # nextElement # x # rest) =
     (if \<not> isContainer_heap h currentObject then (h, HBlocked)
      else
        let a = addrOf currentObject;
            pathKey = normalizePropertyKey seg;
            (h', child) =
              (case getProp_heap rt h a pathKey of
                 None \<Rightarrow>
                   (putProp_heap rt (h @ [newContainer_heap nextElement]) a pathKey
                      (HRef (length h)),
                    HRef (length h))
               | Some c \<Rightarrow>
                   if c = HNull
                   then (putProp_heap rt (h @ [newContainer_heap nextElement]) a pathKey
                           (HRef (length h)),
                         HRef (length h))
                   else (h, c))
        in if child = HNull then (h', HBlocked)
           else walk_heap rt h' child (nextElement # x # rest))"
| "walk_heap rt h currentObject [key, newValue] = finalUpdate_heap rt h currentObject key newValue"
| "walk_heap rt h currentObject [x] = (h, HBlocked)"
| "walk_heap rt h currentObject [] = (h, HBlocked)"

text \<open>
  \<^verbatim>\<open>applyStateUpdate\<close> on the heap: the heap after the call, and the value returned or the
  exception raised.
\<close>

definition applyStateUpdate_heap ::
  "runtime \<Rightarrow> nat \<Rightarrow> heap \<Rightarrow> hval \<Rightarrow> json \<Rightarrow> heap \<times> (error + hval)" where
  "applyStateUpdate_heap rt fuel h currentState updateArray =
     (if \<not> Array_isArray updateArray \<or> length (arrayElements updateArray) < 2
      then (h, Inr currentState)
      else
        let (h1, currentState') =
              (if isPlainObject_heap h currentState then (h, currentState)
               else (h @ [CObj []], HRef (length h)))
        in case stringify fuel h1 currentState' of
             None \<Rightarrow> (h1, Inl TypeError)
           | Some text \<Rightarrow>
               (let (h2, state) = parse h1 text;
                    (h3, out) = walk_heap rt h2 state (arrayElements updateArray)
                in case out of
                     HDone \<Rightarrow> (h3, Inr state)
                   | HBlocked \<Rightarrow> (h3, Inr currentState')
                   | HRaised e \<Rightarrow> (h3, Inl e)))"

text \<open>
  A heap is closed from \<open>lo\<close> when every reference held by a cell at or above \<open>lo\<close>
  is to a cell at or above \<open>lo\<close> of the heap; closed from 0, it has no dangling
  reference.
\<close>

definition valueFrom :: "nat \<Rightarrow> heap \<Rightarrow> hval \<Rightarrow> bool" where
  "valueFrom lo h v = (case v of HRef a \<Rightarrow> lo \<le> a \<and> a < length h | _ \<Rightarrow> True)"

definition cellFrom :: "nat \<Rightarrow> heap \<Rightarrow> cell \<Rightarrow> bool" where
  "cellFrom lo h c =
     (case c of
        CObj fs \<Rightarrow> list_all (\<lambda>(k, v). valueFrom lo h v) fs
      | CArr vs \<Rightarrow> list_all (valueFrom lo h) vs)"

definition closedFrom :: "nat \<Rightarrow> heap \<Rightarrow> bool" where
  "closedFrom lo h = list_all (cellFrom lo h) (drop lo h)"

section \<open>The connection registry: \<^verbatim>\<open>getFAHConnection\<close> and its handlers\<close>

text \<open>
  A frame is the text received on the socket: \<^verbatim>\<open>JSON.parse\<close> either throws on it or
  decodes it.
\<close>

datatype frame = Undecodable | Decoded json

text \<open>
  \<^verbatim>\<open>messageHandler\<close> (lines 204-232) as a function from the entry of \<^verbatim>\<open>machineData\<close>
  for the key (\<open>None\<close> when there is none) to the entry after the frame. Every
  exception is caught by the handler (line 226) and leaves the entry as it was.
\<close>

definition messageHandler :: "runtime \<Rightarrow> json option \<Rightarrow> frame \<Rightarrow> json option" where
  "messageHandler rt stored fr =
     (case fr of
        Undecodable \<Rightarrow> stored
      | Decoded data \<Rightarrow>
          let currentState =
                (case stored of
                   None \<Rightarrow> JObj []
                 | Some s \<Rightarrow> if falsy s \<or> \<not> typeofObject s then JObj [] else s)
          in if Array_isArray data then
               (let stateCopy = jsonClone currentState in
                case applyStateUpdate rt stateCopy data of
                  Inl e \<Rightarrow> stored
                | Inr updatedState \<Rightarrow> if falsy updatedState then stored else Some updatedState)
             else if \<not> falsy data \<and> typeofObject data then Some data
             else stored)"

text \<open>
  The registry is the two module-level maps, keyed by
  \<^verbatim>\<open>instanceId:host:port\<close>. A socket is known by its number; it has the key it was
  created for, the \<^verbatim>\<open>readyState\<close> the library keeps, and whether its \<^verbatim>\<open>open\<close>
  handler has run, which is what attaches the message, close and error handlers of
  lines 239-262.
\<close>

datatype readyState = CONNECTING | OPEN | CLOSING | CLOSED

record socket =
  sockKey :: string
  readyState :: readyState
  attached :: bool

record registry =
  sockets :: "socket list"
  fahConnections :: "string \<rightharpoonup> nat"
  machineData :: "string \<rightharpoonup> json"

definition discard :: "string \<Rightarrow> registry \<Rightarrow> registry" where
  \<comment> \<open>\<^verbatim>\<open>fahConnections.delete(key); machineData.delete(key)\<close>\<close>
  "discard key reg =
     reg\<lparr> fahConnections := (fahConnections reg)(key := None),
          machineData := (machineData reg)(key := None) \<rparr>"

text \<open>
  \<^verbatim>\<open>getFAHConnection\<close>, up to the construction of the socket: either the registered
  open socket is returned, or a new socket is created and its handshake started.
\<close>

datatype acquired = Reused nat | Handshake nat

definition getFAHConnection :: "string \<Rightarrow> registry \<Rightarrow> acquired \<times> registry" where
  "getFAHConnection key reg =
     (let fresh = (\<lambda>r. (Handshake (length (sockets r)),
                          r\<lparr> sockets := sockets r @
                               [\<lparr> sockKey = key, readyState = CONNECTING, attached = False \<rparr>] \<rparr>))
      in case fahConnections reg key of
           Some conn \<Rightarrow>
             if conn < length (sockets reg) \<and> readyState (sockets reg ! conn) = OPEN
             then (Reused conn, reg)
             else fresh (discard key reg)
         | None \<Rightarrow> fresh reg)"

text \<open>The events of a socket, each with the handlers the code has attached by then.\<close>

datatype event = EvOpen | EvMessage frame | EvClose | EvError

definition setSocket :: "nat \<Rightarrow> (socket \<Rightarrow> socket) \<Rightarrow> registry \<Rightarrow> registry" where
  "setSocket n f reg = reg\<lparr> sockets := (sockets reg)[n := f (sockets reg ! n)] \<rparr>"

definition handleEvent :: "runtime \<Rightarrow> nat \<Rightarrow> event \<Rightarrow> registry \<Rightarrow> registry" where
  "handleEvent rt n ev reg =
     (if \<not> n < length (sockets reg) then reg
      else
        let sock = sockets reg ! n; key = sockKey sock in
        case ev of
          EvOpen \<Rightarrow>
            (setSocket n (\<lambda>s. s\<lparr> readyState := OPEN, attached := True \<rparr>) reg)
              \<lparr> fahConnections := (fahConnections reg)(key \<mapsto> n) \<rparr>
        | EvMessage fr \<Rightarrow>
            if attached sock
            then reg\<lparr> machineData :=
                        (machineData reg)(key := messageHandler rt (machineData reg key) fr) \<rparr>
            else reg
        | EvClose \<Rightarrow>
            (let reg' = setSocket n (\<lambda>s. s\<lparr> readyState := CLOSED \<rparr>) reg
             in if attached sock then discard key reg' else reg')
        | EvError \<Rightarrow> if attached sock then discard key reg else reg)"

definition currentDocument :: "string \<Rightarrow> registry \<Rightarrow> json option" where
  \<comment> \<open>\<^verbatim>\<open>machineData.get(key)\<close>\<close>
  "currentDocument key reg = machineData reg key"

section \<open>The router: \<^verbatim>\<open>fahWebSocketCommand\<close> and \<^verbatim>\<open>fahRequest\<close>\<close>

text \<open>
  The router awaits the network. What the network answers is given by an environment:
  whether \<^verbatim>\<open>getFAHConnection\<close> resolves or rejects (and with which error), the entry
  of \<^verbatim>\<open>machineData\<close> found after the 500 ms wait, the clock, and what each HTTP request
  of the fallback answers. What the router does to the network is returned as the list
  of its actions, in order.
\<close>

record jsError =
  errCode :: "string option"
  errMessage :: string
  errResponse :: "(nat \<times> string) option"

record env =
  host :: string
  port :: nat
  now :: string
  connect :: "jsError option"
  docAfterSettle :: "json option"
  http :: "string \<Rightarrow> jsError + json"

datatype result = Success json | Failure string

datatype action = WsConnect | WsSend json | HttpCall string string "json option"

fun startsWith :: "string \<Rightarrow> string \<Rightarrow> bool" where
  "startsWith s [] = True"
| "startsWith [] (p # ps) = False"
| "startsWith (c # cs) (p # ps) = (c = p \<and> startsWith cs ps)"

fun String_includes :: "string \<Rightarrow> string \<Rightarrow> bool" where
  "String_includes [] p = (p = [])"
| "String_includes (c # cs) p = (startsWith (c # cs) p \<or> String_includes cs p)"

definition ownEntries :: "json \<Rightarrow> (string \<times> json) list" where
  \<comment> \<open>the own enumerable properties that an object spread copies\<close>
  "ownEntries v =
     (case v of
        JObj kvs \<Rightarrow> kvs
      | JArr xs \<Rightarrow> zip (map decimal [0..<length xs]) xs
      | JStr cs \<Rightarrow> zip (map decimal [0..<length cs]) (map (\<lambda>c. JStr [c]) cs)
      | _ \<Rightarrow> [])"

definition buildRequest :: "string \<Rightarrow> string \<Rightarrow> json \<Rightarrow> json" where
  \<comment> \<open>lines 282-286: \<^verbatim>\<open>{cmd: command, time: ..., ...data}\<close>\<close>
  "buildRequest command time data =
     JObj (foldl (\<lambda>acc (k, v). AList.update k v acc)
                 [(''cmd'', JStr command), (''time'', JStr time)] (ownEntries data))"

definition fahWebSocketCommand :: "env \<Rightarrow> string \<Rightarrow> json \<Rightarrow> result \<times> action list" where
  "fahWebSocketCommand e command data =
     (case connect e of
        Some err \<Rightarrow>
          (Failure (if errCode err = Some ''ECONNREFUSED'' \<or> String_includes (errMessage err) ''timeout''
                    then ''Connection refused or timed out'' else errMessage err),
           [WsConnect])
      | None \<Rightarrow>
          (case docAfterSettle e of
             None \<Rightarrow> Failure ''No machine state available''
           | Some currentState \<Rightarrow>
               if falsy currentState then Failure ''No machine state available''
               else Success currentState,
           [WsConnect, WsSend (buildRequest command (now e) data)]))"

definition fallbackUrls :: "env \<Rightarrow> string \<Rightarrow> string list" where
  \<comment> \<open>lines 451-455\<close>
  "fallbackUrls e endpoint =
     (let base = ''http://'' @ host e @ '':'' @ decimal (port e) in
      [base @ ''/api/'' @ endpoint, base @ ''/'' @ endpoint, base @ ''/api/v1/'' @ endpoint])"

definition indexOf :: "'a list \<Rightarrow> 'a \<Rightarrow> nat" where
  "indexOf xs x = length (takeWhile (\<lambda>y. y \<noteq> x) xs)"

definition httpFailure :: "jsError \<Rightarrow> result" where
  \<comment> \<open>lines 478-484\<close>
  "httpFailure err =
     (if errCode err = Some ''ECONNREFUSED'' \<or> errCode err = Some ''ETIMEDOUT''
      then Failure ''Connection refused or timed out''
      else case errResponse err of
             Some (status, statusText) \<Rightarrow> Failure (''HTTP '' @ decimal status @ '': '' @ statusText)
           | None \<Rightarrow> Failure (errMessage err))"

text \<open>Lines 457-490: the loop over the candidate URLs, \<open>endpoints\<close> being the whole list.\<close>

fun tryEndpoints :: "env \<Rightarrow> string \<Rightarrow> json \<Rightarrow> string list \<Rightarrow> string list \<Rightarrow> result \<times> action list" where
  "tryEndpoints e method data endpoints [] = (Failure ''All connection attempts failed'', [])"
| "tryEndpoints e method data endpoints (url # rest) =
     (let call = HttpCall method url (if falsy data then None else Some data) in
      case http e url of
        Inr responseData \<Rightarrow> (Success responseData, [call])
      | Inl err \<Rightarrow>
          if Suc (indexOf endpoints url) = length endpoints then (httpFailure err, [call])
          else (let (r, acts) = tryEndpoints e method data endpoints rest in (r, call # acts)))"

definition httpFallback :: "env \<Rightarrow> string \<Rightarrow> string \<Rightarrow> json \<Rightarrow> result \<times> action list" where
  "httpFallback e endpoint method data =
     tryEndpoints e method data (fallbackUrls e endpoint) (fallbackUrls e endpoint)"

definition queryEndpoint :: "string \<Rightarrow> bool" where
  \<comment> \<open>the endpoints answered from \<^verbatim>\<open>machineData\<close> (lines 327-392), and the empty command\<close>
  "queryEndpoint endpoint =
     (endpoint = ''log'' \<or> startsWith endpoint ''queue/'' \<or> endpoint = ''units''
      \<or> endpoint = ''slots'' \<or> endpoint = ''info'' \<or> endpoint = [])"

definition commandOf :: "string \<Rightarrow> json \<Rightarrow> string \<times> json" where
  \<comment> \<open>lines 319-326: the command and its data, for an endpoint that is sent as a command\<close>
  "commandOf endpoint data =
     (if endpoint = ''pause'' \<or> endpoint = ''unpause''
      then (''state'', JObj [(''state'', JStr (if endpoint = ''pause'' then ''pause'' else ''fold''))])
      else (endpoint, if falsy data then JObj [] else data))"

text \<open>
  \<^verbatim>\<open>fahRequest\<close> on the endpoints that are sent as commands: lines 319-326, 394-398
  and 445-490. The branches that answer a query from \<^verbatim>\<open>machineData\<close> (lines 327-392
  and 399-444) are not embedded: \<open>None\<close> stands for them.
\<close>

definition fahRequest :: "env \<Rightarrow> string \<Rightarrow> string \<Rightarrow> json \<Rightarrow> (result \<times> action list) option" where
  "fahRequest e endpoint method data =
     (if queryEndpoint endpoint then None
      else
        let (command, commandData) = commandOf endpoint data;
            (r, acts) = fahWebSocketCommand e command commandData
        in case r of
             Success d \<Rightarrow> Some (r, acts)
           | Failure msg \<Rightarrow>
               (let (r', acts') = httpFallback e endpoint method data in Some (r', acts @ acts')))"

section \<open>The rules of the specification\<close>







section \<open>Example inputs\<close>

text \<open>An environment for the examples of the router.\<close>

definition exampleEnv :: env where
  "exampleEnv =
     \<lparr> host = ''127.0.0.1'', port = 7396, now = ''2024-01-01T00:00:00.000Z'',
       connect = None, docAfterSettle = None,
       http = (\<lambda>url. Inr (JObj [(''status'', JStr ''ok'')])) \<rparr>"

text \<open>A registry for the examples: no socket, no entry.\<close>

definition emptyRegistry :: registry where
  "emptyRegistry = \<lparr> sockets = [], fahConnections = Map.empty, machineData = Map.empty \<rparr>"

text \<open>
  The registry after \<^verbatim>\<open>getFAHConnection\<close> for the local instance, the \<^verbatim>\<open>open\<close> event
  of its socket, and a full-state frame.
\<close>

definition exampleRegistry :: registry where
  "exampleRegistry =
     handleEvent exampleRuntime 0
       (EvMessage (Decoded (JObj [(''info'', JObj [(''cpus'', JNum 8)])])))
       (handleEvent exampleRuntime 0 EvOpen
          (snd (getFAHConnection ''local:127.0.0.1:7396'' emptyRegistry)))"

section \<open>Properties of the patcher\<close>

lemmas patch_defs =
  applyStateUpdate_def jsonClone_def isPlainObject_def falsy_def typeofObject_def
  Array_isArray_def arrayElements_def isContainer_def normalizePropertyKey_def getProp_def
  newContainer_def Number_isInteger_def arrayKey_def finalUpdate_def putProp_def
  arrayStore_def arrayAssign_def setLength_def deleteAt_def canonicalIndex_def digitVal_def

lemma normalizePropertyKey_JNum [simp]: "normalizePropertyKey (JNum r) = JNum r"
  by (simp add: normalizePropertyKey_def)

lemma isPlainObject_JObj [simp]: "isPlainObject (JObj kvs)"
  by (simp add: isPlainObject_def falsy_def typeofObject_def Array_isArray_def)

text \<open>
  Claim C5. An update that is not an array, or is an array of fewer than two elements,
  is a no-op: \<^verbatim>\<open>applyStateUpdate\<close> returns the document it was given, whatever that
  document is, and raises nothing.
\<close>

theorem malformed_update_is_noop:
  assumes "\<not> Array_isArray op \<or> length (arrayElements op) < 2"
  shows "applyStateUpdate rt D op = Inr D"
  using assms by (simp add: applyStateUpdate_def)

theorem malformed_update_is_noop_witness:
  "\<not> Array_isArray (JStr ''ping'')
   \<and> applyStateUpdate exampleRuntime (JObj [(''a'', JNum 1)]) (JStr ''ping'')
       = Inr (JObj [(''a'', JNum 1)])
   \<and> length (arrayElements (JArr [JStr ''a''])) < 2
   \<and> applyStateUpdate exampleRuntime (JObj [(''a'', JNum 1)]) (JArr [JStr ''a''])
       = Inr (JObj [(''a'', JNum 1)])"
  using malformed_update_is_noop [of "JStr ''ping''" exampleRuntime "JObj [(''a'', JNum 1)]"]
        malformed_update_is_noop [of "JArr [JStr ''a'']" exampleRuntime "JObj [(''a'', JNum 1)]"]
  by (simp add: Array_isArray_def arrayElements_def)

lemma walk_final_list:
  "walk rt (JArr xs) [JNum (- 1), v] = Done (JArr (xs @ [v]))"
  "walk rt (JArr xs) [JNum (- 2), JArr ys] = Done (JArr (xs @ ys))"
  "\<not> Array_isArray v \<Longrightarrow> walk rt (JArr xs) [JNum (- 2), v] = Done (JArr xs)"
  by (cases v; simp add: finalUpdate_def isContainer_def typeofObject_def Array_isArray_def)+

lemma list_append_at_segment:
  "map_of kvs (toString rt (normalizePropertyKey seg)) = Some (JArr xs) \<longrightarrow>
     applyStateUpdate rt (JObj kvs) (JArr [seg, JNum (- 1), v])
       = Inr (JObj (AList.update (toString rt (normalizePropertyKey seg)) (JArr (xs @ [v])) kvs))
   \<and> applyStateUpdate rt (JObj kvs) (JArr [seg, JNum (- 2), JArr ys])
       = Inr (JObj (AList.update (toString rt (normalizePropertyKey seg)) (JArr (xs @ ys)) kvs))
   \<and> (\<not> Array_isArray v \<longrightarrow>
        applyStateUpdate rt (JObj kvs) (JArr [seg, JNum (- 2), v]) = Inr (JObj kvs))"
proof (intro impI conjI)
  assume c: "map_of kvs (toString rt (normalizePropertyKey seg)) = Some (JArr xs)"
  show "applyStateUpdate rt (JObj kvs) (JArr [seg, JNum (- 1), v])
       = Inr (JObj (AList.update (toString rt (normalizePropertyKey seg)) (JArr (xs @ [v])) kvs))"
    using c
    by (simp add: applyStateUpdate_def jsonClone_def Array_isArray_def arrayElements_def
        Let_def getProp_def putProp_def finalUpdate_def isContainer_def typeofObject_def)
  show "applyStateUpdate rt (JObj kvs) (JArr [seg, JNum (- 2), JArr ys])
       = Inr (JObj (AList.update (toString rt (normalizePropertyKey seg)) (JArr (xs @ ys)) kvs))"
    using c
    by (simp add: applyStateUpdate_def jsonClone_def Array_isArray_def arrayElements_def
        Let_def getProp_def putProp_def finalUpdate_def isContainer_def typeofObject_def)
  assume nv: "\<not> Array_isArray v"
  from c have triv: "AList.update (toString rt (normalizePropertyKey seg)) (JArr xs) kvs = kvs"
    by (rule update_triv)
  show "applyStateUpdate rt (JObj kvs) (JArr [seg, JNum (- 2), v]) = Inr (JObj kvs)"
    using c nv triv
    by (cases v) (simp_all add: applyStateUpdate_def jsonClone_def Array_isArray_def arrayElements_def
        Let_def getProp_def putProp_def finalUpdate_def isContainer_def typeofObject_def)
qed

text \<open>
  Claim C6. When the traversal ends on a list \<open>xs\<close>, the final key \<open>-1\<close> appends the
  value, the final key \<open>-2\<close> with a list value appends its elements in order, and the
  final key \<open>-2\<close> with a value that is not a list leaves the list as it was. So for a
  list stored in the document under the property that a segment names, the call returns
  the document with the longer list, or the document as it was.
\<close>

theorem list_append_semantics:
  "walk rt (JArr xs) [JNum (- 1), v] = Done (JArr (xs @ [v]))
   \<and> walk rt (JArr xs) [JNum (- 2), JArr ys] = Done (JArr (xs @ ys))
   \<and> (\<not> Array_isArray v \<longrightarrow> walk rt (JArr xs) [JNum (- 2), v] = Done (JArr xs))
   \<and> (map_of kvs (toString rt (normalizePropertyKey seg)) = Some (JArr xs) \<longrightarrow>
       applyStateUpdate rt (JObj kvs) (JArr [seg, JNum (- 1), v])
         = Inr (JObj (AList.update (toString rt (normalizePropertyKey seg)) (JArr (xs @ [v])) kvs))
     \<and> applyStateUpdate rt (JObj kvs) (JArr [seg, JNum (- 2), JArr ys])
         = Inr (JObj (AList.update (toString rt (normalizePropertyKey seg)) (JArr (xs @ ys)) kvs))
     \<and> (\<not> Array_isArray v \<longrightarrow>
          applyStateUpdate rt (JObj kvs) (JArr [seg, JNum (- 2), v]) = Inr (JObj kvs)))"
  using walk_final_list list_append_at_segment [of kvs rt seg xs v ys]
  by blast

text \<open>The spec's example: \<open>[1,2]\<close>, then \<open>-1\<close> with 3, then \<open>-2\<close> with \<open>[4,5]\<close>.\<close>

theorem list_append_semantics_witness:
  "applyStateUpdate exampleRuntime (JObj [(''l'', JArr [JNum 1, JNum 2])])
        (JArr [JStr ''l'', JNum (- 1), JNum 3])
     = Inr (JObj [(''l'', JArr [JNum 1, JNum 2, JNum 3])])
   \<and> applyStateUpdate exampleRuntime (JObj [(''l'', JArr [JNum 1, JNum 2, JNum 3])])
        (JArr [JStr ''l'', JNum (- 2), JArr [JNum 4, JNum 5]])
     = Inr (JObj [(''l'', JArr [JNum 1, JNum 2, JNum 3, JNum 4, JNum 5])])
   \<and> applyStateUpdate exampleRuntime (JObj [(''l'', JArr [JNum 1, JNum 2])])
        (JArr [JStr ''l'', JNum (- 2), JNum 7])
     = Inr (JObj [(''l'', JArr [JNum 1, JNum 2])])"
  using list_append_semantics [where kvs = "[(''l'', JArr [JNum 1, JNum 2])]"
          and rt = exampleRuntime and seg = "JStr ''l''" and xs = "[JNum 1, JNum 2]"
          and v = "JNum 3" and ys = "[]"]
        list_append_semantics [where kvs = "[(''l'', JArr [JNum 1, JNum 2, JNum 3])]"
          and rt = exampleRuntime and seg = "JStr ''l''" and xs = "[JNum 1, JNum 2, JNum 3]"
          and v = "JNum 3" and ys = "[JNum 4, JNum 5]"]
        list_append_semantics [where kvs = "[(''l'', JArr [JNum 1, JNum 2])]"
          and rt = exampleRuntime and seg = "JStr ''l''" and xs = "[JNum 1, JNum 2]"
          and v = "JNum 7" and ys = "[]"]
  by (simp add: normalizePropertyKey_def Array_isArray_def)

lemmas app_simps =
  applyStateUpdate_def jsonClone_def Array_isArray_def arrayElements_def Let_def getProp_def
  putProp_def finalUpdate_def isContainer_def typeofObject_def

lemma delete_absent: "k \<notin> fst ` set kvs \<Longrightarrow> AList.delete k kvs = kvs"
  by (induction kvs) (auto simp: AList.delete_eq)

lemma walk_final_delete:
  "walk rt (JObj kvs) [key, JNull]
     = Done (JObj (AList.delete (toString rt (normalizePropertyKey key)) kvs))"
  "i < length xs \<Longrightarrow>
     walk rt (JArr xs) [JNum (of_nat i), JNull] = Done (JArr (take i xs @ drop (Suc i) xs))"
  "length xs \<le> i \<Longrightarrow> walk rt (JArr xs) [JNum (of_nat i), JNull] = Done (JArr xs)"
  "r < 0 \<and> r \<noteq> - 1 \<and> r \<noteq> - 2 \<Longrightarrow> walk rt (JArr xs) [JNum r, JNull] = Done (JArr xs)"
  by (simp_all add: finalUpdate_def isContainer_def typeofObject_def Array_isArray_def
      deleteAt_def of_nat_eq_iff)

lemma delete_at_segment:
  "applyStateUpdate rt (JObj kvs) (JArr [key, JNull])
       = Inr (JObj (AList.delete (toString rt (normalizePropertyKey key)) kvs))
   \<and> map_of (AList.delete (toString rt (normalizePropertyKey key)) kvs)
         (toString rt (normalizePropertyKey key)) = None
   \<and> (toString rt (normalizePropertyKey key) \<notin> fst ` set kvs \<longrightarrow>
        applyStateUpdate rt (JObj kvs) (JArr [key, JNull]) = Inr (JObj kvs))
   \<and> (map_of kvs (toString rt (normalizePropertyKey seg)) = Some (JArr xs) \<longrightarrow>
        (i < length xs \<longrightarrow>
           applyStateUpdate rt (JObj kvs) (JArr [seg, JNum (of_nat i), JNull])
             = Inr (JObj (AList.update (toString rt (normalizePropertyKey seg))
                            (JArr (take i xs @ drop (Suc i) xs)) kvs))
           \<and> length (take i xs @ drop (Suc i) xs) = length xs - 1)
        \<and> (length xs \<le> i \<longrightarrow>
           applyStateUpdate rt (JObj kvs) (JArr [seg, JNum (of_nat i), JNull]) = Inr (JObj kvs))
        \<and> (r < 0 \<and> r \<noteq> - 1 \<and> r \<noteq> - 2 \<longrightarrow>
           applyStateUpdate rt (JObj kvs) (JArr [seg, JNum r, JNull]) = Inr (JObj kvs)))"
proof (intro conjI impI)
  show d: "applyStateUpdate rt (JObj kvs) (JArr [key, JNull])
       = Inr (JObj (AList.delete (toString rt (normalizePropertyKey key)) kvs))"
    by (simp add: app_simps)
  show "map_of (AList.delete (toString rt (normalizePropertyKey key)) kvs)
         (toString rt (normalizePropertyKey key)) = None"
    by (simp add: delete_conv')
  show "applyStateUpdate rt (JObj kvs) (JArr [key, JNull]) = Inr (JObj kvs)"
    if "toString rt (normalizePropertyKey key) \<notin> fst ` set kvs"
    using d that by (simp add: delete_absent)
next
  assume c: "map_of kvs (toString rt (normalizePropertyKey seg)) = Some (JArr xs)"
  have neq: "JNum (of_nat i) \<noteq> JNum (- 1)" "JNum (of_nat i) \<noteq> JNum (- 2)"
    by (simp_all add: of_nat_eq_iff)
  show "applyStateUpdate rt (JObj kvs) (JArr [seg, JNum (of_nat i), JNull])
             = Inr (JObj (AList.update (toString rt (normalizePropertyKey seg))
                            (JArr (take i xs @ drop (Suc i) xs)) kvs))"
    if "i < length xs"
    using c that neq by (simp add: app_simps deleteAt_def)
  show "length (take i xs @ drop (Suc i) xs) = length xs - 1" if "i < length xs"
    using that by simp
  from c have triv: "AList.update (toString rt (normalizePropertyKey seg)) (JArr xs) kvs = kvs"
    by (rule update_triv)
  show "applyStateUpdate rt (JObj kvs) (JArr [seg, JNum (of_nat i), JNull]) = Inr (JObj kvs)"
    if "length xs \<le> i"
    using c that neq triv by (simp add: app_simps)
  show "applyStateUpdate rt (JObj kvs) (JArr [seg, JNum r, JNull]) = Inr (JObj kvs)"
    if "r < 0 \<and> r \<noteq> - 1 \<and> r \<noteq> - 2"
    using c that triv by (simp add: app_simps)
qed

text \<open>
  Claim C7. Deleting is an update whose value is null. When the traversal ends on a
  map, the property that the final key names is removed, and when there is no such
  property the map stays as it is. When it ends on a list \<open>xs\<close>, a final key that is an
  integer \<open>i\<close> with \<open>0 \<le> i < length xs\<close> removes the element at \<open>i\<close>, so that the list
  is one shorter; an integer at or past the end, or a negative one other than the two
  append keys \<open>-1\<close> and \<open>-2\<close>, changes nothing. The second half of the statement is the
  same for the document itself as map, and for a list stored in it under the property
  that a segment names.
\<close>

theorem delete_semantics:
  "walk rt (JObj kvs) [key, JNull]
       = Done (JObj (AList.delete (toString rt (normalizePropertyKey key)) kvs))
   \<and> (i < length xs \<longrightarrow>
        walk rt (JArr xs) [JNum (of_nat i), JNull] = Done (JArr (take i xs @ drop (Suc i) xs)))
   \<and> (length xs \<le> i \<longrightarrow> walk rt (JArr xs) [JNum (of_nat i), JNull] = Done (JArr xs))
   \<and> (r < 0 \<and> r \<noteq> - 1 \<and> r \<noteq> - 2 \<longrightarrow> walk rt (JArr xs) [JNum r, JNull] = Done (JArr xs))
   \<and> applyStateUpdate rt (JObj kvs) (JArr [key, JNull])
       = Inr (JObj (AList.delete (toString rt (normalizePropertyKey key)) kvs))
   \<and> map_of (AList.delete (toString rt (normalizePropertyKey key)) kvs)
         (toString rt (normalizePropertyKey key)) = None
   \<and> (toString rt (normalizePropertyKey key) \<notin> fst ` set kvs \<longrightarrow>
        applyStateUpdate rt (JObj kvs) (JArr [key, JNull]) = Inr (JObj kvs))
   \<and> (map_of kvs (toString rt (normalizePropertyKey seg)) = Some (JArr xs) \<longrightarrow>
        (i < length xs \<longrightarrow>
           applyStateUpdate rt (JObj kvs) (JArr [seg, JNum (of_nat i), JNull])
             = Inr (JObj (AList.update (toString rt (normalizePropertyKey seg))
                            (JArr (take i xs @ drop (Suc i) xs)) kvs))
           \<and> length (take i xs @ drop (Suc i) xs) = length xs - 1)
        \<and> (length xs \<le> i \<longrightarrow>
           applyStateUpdate rt (JObj kvs) (JArr [seg, JNum (of_nat i), JNull]) = Inr (JObj kvs))
        \<and> (r < 0 \<and> r \<noteq> - 1 \<and> r \<noteq> - 2 \<longrightarrow>
           applyStateUpdate rt (JObj kvs) (JArr [seg, JNum r, JNull]) = Inr (JObj kvs)))"
  using walk_final_delete delete_at_segment [of rt kvs key seg xs i r]
  by blast

text \<open>
  The spec's example, \<^verbatim>\<open>{"a":1,"b":2}\<close> with key \<^verbatim>\<open>"b"\<close>, the same delete again, and a
  list with an index in range and one out of range.
\<close>

theorem delete_semantics_witness:
  "applyStateUpdate exampleRuntime (JObj [(''a'', JNum 1), (''b'', JNum 2)]) (JArr [JStr ''b'', JNull])
     = Inr (JObj [(''a'', JNum 1)])
   \<and> applyStateUpdate exampleRuntime (JObj [(''a'', JNum 1)]) (JArr [JStr ''b'', JNull])
     = Inr (JObj [(''a'', JNum 1)])
   \<and> applyStateUpdate exampleRuntime (JObj [(''l'', JArr [JStr ''x'', JStr ''y'', JStr ''z''])])
        (JArr [JStr ''l'', JNum 1, JNull])
     = Inr (JObj [(''l'', JArr [JStr ''x'', JStr ''z''])])
   \<and> applyStateUpdate exampleRuntime (JObj [(''l'', JArr [JStr ''x'', JStr ''y'', JStr ''z''])])
        (JArr [JStr ''l'', JNum 3, JNull])
     = Inr (JObj [(''l'', JArr [JStr ''x'', JStr ''y'', JStr ''z''])])"
  using delete_semantics [where rt = exampleRuntime and kvs = "[(''a'', JNum 1), (''b'', JNum 2)]"
          and key = "JStr ''b''" and seg = "JStr ''l''" and xs = "[]" and i = 0 and r = 0]
        delete_semantics [where rt = exampleRuntime and kvs = "[(''a'', JNum 1)]"
          and key = "JStr ''b''" and seg = "JStr ''l''" and xs = "[]" and i = 0 and r = 0]
        delete_semantics [where rt = exampleRuntime
          and kvs = "[(''l'', JArr [JStr ''x'', JStr ''y'', JStr ''z''])]"
          and key = "JStr ''b''" and seg = "JStr ''l''"
          and xs = "[JStr ''x'', JStr ''y'', JStr ''z'']" and i = 1 and r = 0]
        delete_semantics [where rt = exampleRuntime
          and kvs = "[(''l'', JArr [JStr ''x'', JStr ''y'', JStr ''z''])]"
          and key = "JStr ''b''" and seg = "JStr ''l''"
          and xs = "[JStr ''x'', JStr ''y'', JStr ''z'']" and i = 3 and r = 0]
  by (simp add: normalizePropertyKey_def AList.delete_eq)






text \<open>
  Claim C10 says that \<^verbatim>\<open>applyStateUpdate\<close> never raises. It does: with the document
  \<^verbatim>\<open>{"a": [1, 2]}\<close> the update \<^verbatim>\<open>["a", "length", -5]\<close> reaches line 162 with the list
  as target and \<^verbatim>\<open>length\<close> as key, and assigning \<open>-5\<close> to the length of an array is a
  \<^verbatim>\<open>RangeError\<close>.
\<close>

theorem length_assignment_raises:
  "applyStateUpdate rt (JObj [(''a'', JArr [JNum 1, JNum 2])])
      (JArr [JStr ''a'', JStr ''length'', JNum (- 5)]) = Inl RangeError"
  by (simp add: patch_defs)

theorem length_assignment_raises_witness:
  "applyStateUpdate exampleRuntime (JObj [(''a'', JArr [JNum 1, JNum 2])])
      (JArr [JStr ''a'', JStr ''length'', JNum (- 5)]) = Inl RangeError"
  using length_assignment_raises [of exampleRuntime] by simp

text \<open>
  The rest of that claim holds: a value on the path that is not a container ends the
  call with the early return, at every position, and no other exception is raised.
\<close>

lemma walk_not_container: "\<not> isContainer cur \<Longrightarrow> walk rt cur upd = Blocked"
  by (cases "(rt, cur, upd)" rule: walk.cases) (simp_all add: finalUpdate_def)

lemma finalUpdate_raises: "finalUpdate rt cur key v = Raised e \<Longrightarrow> e = RangeError"
  by (auto simp: finalUpdate_def arrayAssign_def setLength_def Let_def
      split: if_splits json.splits option.splits arrayKey.splits)

lemma walk_raises: "walk rt cur upd = Raised e \<Longrightarrow> e = RangeError"
  by (induction rt cur upd rule: walk.induct)
     (auto simp: Let_def finalUpdate_raises split: if_splits outcome.splits)

subsection \<open>Key normalization\<close>























section \<open>Properties of the registry\<close>

lemmas registry_defs =
  handleEvent_def getFAHConnection_def discard_def setSocket_def currentDocument_def

text \<open>
  Claim C9. Once the \<^verbatim>\<open>open\<close> handler of a socket has attached the teardown handlers,
  a \<^verbatim>\<open>close\<close> or \<^verbatim>\<open>error\<close> event of that socket removes both the connection and the
  document registered under the socket's key: the document read for the key is absent,
  and the next \<^verbatim>\<open>getFAHConnection\<close> for the key does not reuse a socket but starts the
  handshake of a new one, with no document. The same holds when
  \<^verbatim>\<open>getFAHConnection\<close> finds a registered socket that is not open (lines 183-191).
\<close>

theorem teardown_discards:
  "(n < length (sockets reg) \<and> attached (sockets reg ! n) \<and> (ev = EvClose \<or> ev = EvError) \<longrightarrow>
     fahConnections (handleEvent rt n ev reg) (sockKey (sockets reg ! n)) = None
     \<and> currentDocument (sockKey (sockets reg ! n)) (handleEvent rt n ev reg) = None
     \<and> fst (getFAHConnection (sockKey (sockets reg ! n)) (handleEvent rt n ev reg))
         = Handshake (length (sockets reg))
     \<and> currentDocument (sockKey (sockets reg ! n))
          (snd (getFAHConnection (sockKey (sockets reg ! n)) (handleEvent rt n ev reg))) = None)
   \<and> (fahConnections reg key = Some c \<and> c < length (sockets reg)
        \<and> readyState (sockets reg ! c) \<noteq> OPEN \<longrightarrow>
     fst (getFAHConnection key reg) = Handshake (length (sockets reg))
     \<and> fahConnections (snd (getFAHConnection key reg)) key = None
     \<and> currentDocument key (snd (getFAHConnection key reg)) = None)"
  by (auto simp: registry_defs Let_def)

lemma exampleRegistry_eq:
  "exampleRegistry =
     \<lparr> sockets = [\<lparr> sockKey = ''local:127.0.0.1:7396'', readyState = OPEN, attached = True \<rparr>],
       fahConnections = [''local:127.0.0.1:7396'' \<mapsto> 0],
       machineData = [''local:127.0.0.1:7396'' \<mapsto> JObj [(''info'', JObj [(''cpus'', JNum 8)])]] \<rparr>"
  by (simp add: exampleRegistry_def registry_defs emptyRegistry_def Let_def messageHandler_def
      falsy_def typeofObject_def Array_isArray_def)

text \<open>
  In the example registry the socket is reused and the document is there; after the
  \<^verbatim>\<open>close\<close> event, and likewise after the \<^verbatim>\<open>error\<close> event, the document is absent and
  a second socket is created.
\<close>

theorem teardown_discards_witness:
  "0 < length (sockets exampleRegistry) \<and> attached (sockets exampleRegistry ! 0)
   \<and> sockKey (sockets exampleRegistry ! 0) = ''local:127.0.0.1:7396''
   \<and> currentDocument ''local:127.0.0.1:7396'' exampleRegistry
       = Some (JObj [(''info'', JObj [(''cpus'', JNum 8)])])
   \<and> fst (getFAHConnection ''local:127.0.0.1:7396'' exampleRegistry) = Reused 0
   \<and> currentDocument ''local:127.0.0.1:7396'' (handleEvent exampleRuntime 0 EvClose exampleRegistry)
       = None
   \<and> fst (getFAHConnection ''local:127.0.0.1:7396''
             (handleEvent exampleRuntime 0 EvClose exampleRegistry)) = Handshake 1
   \<and> currentDocument ''local:127.0.0.1:7396'' (handleEvent exampleRuntime 0 EvError exampleRegistry)
       = None
   \<and> fst (getFAHConnection ''local:127.0.0.1:7396''
             (handleEvent exampleRuntime 0 EvError exampleRegistry)) = Handshake 1"
  using teardown_discards [of 0 exampleRegistry EvClose exampleRuntime "''k''" 0]
        teardown_discards [of 0 exampleRegistry EvError exampleRuntime "''k''" 0]
  by (simp add: exampleRegistry_eq) (simp add: registry_defs)

section \<open>Properties of the router\<close>

lemma decimal_7396: "decimal 7396 = ''7396''"
  by (simp add: decimal.simps)

lemma not_query: "\<not> queryEndpoint ''pause''" "\<not> queryEndpoint ''unpause''"
  by (simp_all add: queryEndpoint_def)

lemma commandOf_pause: "commandOf ''pause'' data = (''state'', JObj [(''state'', JStr ''pause'')])"
  by (simp add: commandOf_def)

lemma commandOf_unpause: "commandOf ''unpause'' data = (''state'', JObj [(''state'', JStr ''fold'')])"
  by (simp add: commandOf_def)

lemma buildRequest_state:
  "buildRequest ''state'' t (JObj [(''state'', v)])
     = JObj [(''cmd'', JStr ''state''), (''time'', JStr t), (''state'', v)]"
  by (simp add: buildRequest_def ownEntries_def)

lemma fahWebSocketCommand_connected:
  "connect e = None \<Longrightarrow>
   \<exists>r. fahWebSocketCommand e command data
         = (r, [WsConnect, WsSend (buildRequest command (now e) data)])"
  by (simp add: fahWebSocketCommand_def)

lemma fahRequest_sends:
  assumes "connect e = None" "\<not> queryEndpoint endpoint"
  shows "\<exists>r acts. fahRequest e endpoint verb data
            = Some (r, WsConnect
                       # WsSend (buildRequest (fst (commandOf endpoint data)) (now e)
                                   (snd (commandOf endpoint data)))
                       # acts)"
proof -
  obtain r where r: "fahWebSocketCommand e (fst (commandOf endpoint data)) (snd (commandOf endpoint data))
         = (r, [WsConnect, WsSend (buildRequest (fst (commandOf endpoint data)) (now e)
                                   (snd (commandOf endpoint data)))])"
    using fahWebSocketCommand_connected [OF assms(1)] by blast
  show ?thesis
    using assms(2) r
    by (cases r) (simp_all add: fahRequest_def split_beta Let_def)
qed

lemma exampleEnv_simps:
  "connect exampleEnv = None" "docAfterSettle exampleEnv = None"
  "host exampleEnv = ''127.0.0.1''" "port exampleEnv = 7396"
  "now exampleEnv = ''2024-01-01T00:00:00.000Z''"
  "http exampleEnv url = Inr (JObj [(''status'', JStr ''ok'')])"
  by (simp_all add: exampleEnv_def)

text \<open>
  Claim C8. The endpoint \<^verbatim>\<open>pause\<close> is the command \<^verbatim>\<open>state\<close> with data
  \<^verbatim>\<open>{state: "pause"}\<close>, the endpoint \<^verbatim>\<open>unpause\<close> is the same command with data
  \<^verbatim>\<open>{state: "fold"}\<close>, and when the socket is there the frame that \<^verbatim>\<open>fahRequest\<close> sends
  is \<^verbatim>\<open>{cmd: "state", time: ..., state: "pause"}\<close>, respectively
  \<^verbatim>\<open>{cmd: "state", time: ..., state: "fold"}\<close>.
\<close>

theorem command_mapping:
  "commandOf ''pause'' data = (''state'', JObj [(''state'', JStr ''pause'')])
   \<and> commandOf ''unpause'' data = (''state'', JObj [(''state'', JStr ''fold'')])
   \<and> (connect e = None \<longrightarrow>
        (\<exists>r acts. fahRequest e ''pause'' verb data
            = Some (r, WsConnect
                       # WsSend (JObj [(''cmd'', JStr ''state''), (''time'', JStr (now e)),
                                       (''state'', JStr ''pause'')])
                       # acts))
        \<and> (\<exists>r acts. fahRequest e ''unpause'' verb data
            = Some (r, WsConnect
                       # WsSend (JObj [(''cmd'', JStr ''state''), (''time'', JStr (now e)),
                                       (''state'', JStr ''fold'')])
                       # acts)))"
  using fahRequest_sends [of e "''pause''" verb data]
        fahRequest_sends [of e "''unpause''" verb data]
  by (simp add: not_query commandOf_pause commandOf_unpause buildRequest_state)

theorem command_mapping_witness:
  "connect exampleEnv = None
   \<and> (\<exists>r acts. fahRequest exampleEnv ''pause'' ''POST'' JNull
            = Some (r, WsConnect
                       # WsSend (JObj [(''cmd'', JStr ''state''),
                                       (''time'', JStr ''2024-01-01T00:00:00.000Z''),
                                       (''state'', JStr ''pause'')])
                       # acts))
   \<and> (\<exists>r acts. fahRequest exampleEnv ''unpause'' ''POST'' JNull
            = Some (r, WsConnect
                       # WsSend (JObj [(''cmd'', JStr ''state''),
                                       (''time'', JStr ''2024-01-01T00:00:00.000Z''),
                                       (''state'', JStr ''fold'')])
                       # acts))"
  using command_mapping [of JNull exampleEnv "''POST''"]
  by (simp add: exampleEnv_simps)

lemma fahWebSocketCommand_no_state:
  "connect e = None \<Longrightarrow> docAfterSettle e = None \<Longrightarrow>
   fahWebSocketCommand e command data
     = (Failure ''No machine state available'',
        [WsConnect, WsSend (buildRequest command (now e) data)])"
  by (simp add: fahWebSocketCommand_def)

lemma fahWebSocketCommand_no_http:
  "a \<in> set (snd (fahWebSocketCommand e command data)) \<Longrightarrow>
   (case a of HttpCall m u b \<Rightarrow> False | _ \<Rightarrow> True)"
  by (auto simp: fahWebSocketCommand_def split: option.splits)

lemma tryEndpoints_first:
  "\<exists>acts. snd (tryEndpoints e verb data all (url # rest))
     = HttpCall verb url (if falsy data then None else Some data) # acts"
  by (simp add: Let_def split_beta split: sum.splits)

lemma httpFallback_first:
  "\<exists>acts. snd (httpFallback e endpoint verb data)
     = HttpCall verb (''http://'' @ host e @ '':'' @ decimal (port e) @ ''/api/'' @ endpoint)
         (if falsy data then None else Some data) # acts"
  unfolding httpFallback_def fallbackUrls_def Let_def
  using tryEndpoints_first by simp

lemma fahRequest_no_state:
  assumes "\<not> queryEndpoint endpoint" "connect e = None" "docAfterSettle e = None"
  shows "fahRequest e endpoint verb data
          = Some (fst (httpFallback e endpoint verb data),
                  [WsConnect,
                   WsSend (buildRequest (fst (commandOf endpoint data)) (now e)
                             (snd (commandOf endpoint data)))]
                  @ snd (httpFallback e endpoint verb data))"
  using assms
  by (simp add: fahRequest_def split_beta fahWebSocketCommand_no_state)

lemma httpFallback_example:
  "httpFallback exampleEnv ''pause'' ''POST'' JNull
    = (Success (JObj [(''status'', JStr ''ok'')]),
       [HttpCall ''POST'' ''http://127.0.0.1:7396/api/pause'' None])"
  by (simp add: httpFallback_def fallbackUrls_def exampleEnv_simps decimal_7396 falsy_def)

text \<open>
  Claim C1, as the code has it. When the socket is there and no document is found after
  the wait, \<^verbatim>\<open>fahWebSocketCommand\<close> returns the failure \<^verbatim>\<open>No machine state available\<close>
  as data, having sent the command frame, and it never makes an HTTP request (so the
  config route, which calls it directly, ends there). \<^verbatim>\<open>fahRequest\<close> does not return
  that failure: for every endpoint it sends as a command (\<^verbatim>\<open>pause\<close> and \<^verbatim>\<open>unpause\<close>
  among them) it goes on to the HTTP fallback after the frame was sent, requests at
  least the first candidate URL, and returns what the fallback returns.
\<close>

theorem no_state_falls_back_to_http:
  "(connect e = None \<and> docAfterSettle e = None \<longrightarrow>
      fahWebSocketCommand e command data
        = (Failure ''No machine state available'',
           [WsConnect, WsSend (buildRequest command (now e) data)]))
   \<and> (\<forall>a \<in> set (snd (fahWebSocketCommand e command data)).
         case a of HttpCall m u b \<Rightarrow> False | _ \<Rightarrow> True)
   \<and> (\<not> queryEndpoint endpoint \<and> connect e = None \<and> docAfterSettle e = None \<longrightarrow>
      fahRequest e endpoint verb data
        = Some (fst (httpFallback e endpoint verb data),
                [WsConnect,
                 WsSend (buildRequest (fst (commandOf endpoint data)) (now e)
                           (snd (commandOf endpoint data)))]
                @ snd (httpFallback e endpoint verb data))
      \<and> (\<exists>acts. snd (httpFallback e endpoint verb data)
            = HttpCall verb
                (''http://'' @ host e @ '':'' @ decimal (port e) @ ''/api/'' @ endpoint)
                (if falsy data then None else Some data) # acts))"
  using fahWebSocketCommand_no_state [of e command data] fahWebSocketCommand_no_http [of _ e command data]
        fahRequest_no_state [of endpoint e verb data] httpFallback_first [of e endpoint verb data]
  by blast

theorem no_state_falls_back_to_http_witness:
  "\<not> queryEndpoint ''unpause'' \<and> connect exampleEnv = None \<and> docAfterSettle exampleEnv = None
   \<and> fahWebSocketCommand exampleEnv ''config'' (JObj [(''config'', JObj [])])
       = (Failure ''No machine state available'',
          [WsConnect,
           WsSend (JObj [(''cmd'', JStr ''config''), (''time'', JStr ''2024-01-01T00:00:00.000Z''),
                         (''config'', JObj [])])])
   \<and> fahRequest exampleEnv ''unpause'' ''POST'' (JObj [(''config'', JObj [])])
       = Some (Success (JObj [(''status'', JStr ''ok'')]),
               [WsConnect,
                WsSend (JObj [(''cmd'', JStr ''state''), (''time'', JStr ''2024-01-01T00:00:00.000Z''),
                              (''state'', JStr ''fold'')]),
                HttpCall ''POST'' ''http://127.0.0.1:7396/api/unpause''
                  (Some (JObj [(''config'', JObj [])]))])"
  using no_state_falls_back_to_http [where e = exampleEnv and command = "''config''"
          and data = "JObj [(''config'', JObj [])]" and endpoint = "''unpause''"
          and verb = "''POST''"]
  by (simp add: not_query exampleEnv_simps commandOf_unpause buildRequest_state
      httpFallback_def fallbackUrls_def decimal_7396 falsy_def buildRequest_def ownEntries_def)

text \<open>
  The claim as the specification words it fails: with the socket there, no document
  after the wait and an HTTP server that answers, \<^verbatim>\<open>fahRequest\<close> for \<^verbatim>\<open>pause\<close> sends
  the command frame, then requests \<^verbatim>\<open>/api/pause\<close> over HTTP, and returns the answer of
  that request as a success.
\<close>

theorem no_state_falls_back_to_http_counterexample:
  "connect exampleEnv = None \<and> docAfterSettle exampleEnv = None
   \<and> fahRequest exampleEnv ''pause'' ''POST'' JNull
       = Some (Success (JObj [(''status'', JStr ''ok'')]),
               [WsConnect,
                WsSend (JObj [(''cmd'', JStr ''state''), (''time'', JStr ''2024-01-01T00:00:00.000Z''),
                              (''state'', JStr ''pause'')]),
                HttpCall ''POST'' ''http://127.0.0.1:7396/api/pause'' None])"
  by (simp add: fahRequest_no_state not_query exampleEnv_simps commandOf_pause buildRequest_state
      httpFallback_example)

section \<open>Properties of the patcher on the heap\<close>

lemma closedFrom_iff:
  "closedFrom lo h \<longleftrightarrow> (\<forall>a. lo \<le> a \<and> a < length h \<longrightarrow> cellFrom lo h (h ! a))"
proof
  assume c: "closedFrom lo h"
  show "\<forall>a. lo \<le> a \<and> a < length h \<longrightarrow> cellFrom lo h (h ! a)"
  proof (intro allI impI)
    fix a assume a: "lo \<le> a \<and> a < length h"
    then have "h ! a = drop lo h ! (a - lo)" "a - lo < length (drop lo h)" by auto
    with c show "cellFrom lo h (h ! a)"
      unfolding closedFrom_def list_all_length by metis
  qed
next
  assume r: "\<forall>a. lo \<le> a \<and> a < length h \<longrightarrow> cellFrom lo h (h ! a)"
  show "closedFrom lo h"
    unfolding closedFrom_def list_all_length
  proof (intro allI impI)
    fix n assume "n < length (drop lo h)"
    then have "lo \<le> lo + n \<and> lo + n < length h" "drop lo h ! n = h ! (lo + n)" by auto
    with r show "cellFrom lo h (drop lo h ! n)" by metis
  qed
qed

lemma valueFrom_mono:
  "valueFrom lo h v \<Longrightarrow> length h \<le> length h' \<Longrightarrow> valueFrom lo h' v"
  by (cases v) (auto simp: valueFrom_def)

lemma cellFrom_mono:
  "cellFrom lo h c \<Longrightarrow> length h \<le> length h' \<Longrightarrow> cellFrom lo h' c"
  by (cases c) (auto simp: cellFrom_def list_all_iff intro: valueFrom_mono)

lemma closedFrom_append:
  assumes "closedFrom lo h" "cellFrom lo (h @ [c]) c"
  shows "closedFrom lo (h @ [c])"
  unfolding closedFrom_iff
proof (intro allI impI)
  fix a assume a: "lo \<le> a \<and> a < length (h @ [c])"
  show "cellFrom lo (h @ [c]) ((h @ [c]) ! a)"
  proof (cases "a < length h")
    case True
    with a assms(1) have "cellFrom lo h (h ! a)" by (simp add: closedFrom_iff)
    with True show ?thesis by (simp add: nth_append cellFrom_mono)
  next
    case False
    with a have "a = length h" by simp
    with assms(2) show ?thesis by simp
  qed
qed

lemma closedFrom_update:
  assumes "closedFrom lo h" "cellFrom lo h c"
  shows "closedFrom lo (h[a := c])"
  unfolding closedFrom_iff
proof (intro allI impI)
  fix b assume b: "lo \<le> b \<and> b < length (h[a := c])"
  with assms(1) have "cellFrom lo h (h ! b)" by (simp add: closedFrom_iff)
  with assms(2) b have "cellFrom lo h (h[a := c] ! b)"
    by (cases "a = b") simp_all
  then show "cellFrom lo (h[a := c]) (h[a := c] ! b)"
    by (rule cellFrom_mono) simp
qed

lemma closedFrom_cell:
  "closedFrom lo h \<Longrightarrow> lo \<le> a \<Longrightarrow> a < length h \<Longrightarrow> cellFrom lo h (h ! a)"
  by (simp add: closedFrom_iff)

lemma parse_frame:
  "parse h j = (h', v) \<Longrightarrow> closedFrom lo h \<Longrightarrow> lo \<le> length h \<Longrightarrow>
     (\<exists>new. h' = h @ new) \<and> closedFrom lo h' \<and> valueFrom lo h' v"
  "parseList h xs = (h', vs) \<Longrightarrow> closedFrom lo h \<Longrightarrow> lo \<le> length h \<Longrightarrow>
     (\<exists>new. h' = h @ new) \<and> closedFrom lo h' \<and> list_all (valueFrom lo h') vs"
  "parseFields h kvs = (h', fs) \<Longrightarrow> closedFrom lo h \<Longrightarrow> lo \<le> length h \<Longrightarrow>
     (\<exists>new. h' = h @ new) \<and> closedFrom lo h' \<and> list_all (\<lambda>(k, v). valueFrom lo h' v) fs"
proof (induction h j and h xs and h kvs arbitrary: h' v and h' vs and h' fs
       rule: parse_parseList_parseFields.induct)
  case (5 h xs)
  obtain h1 vs where p: "parseList h xs = (h1, vs)" by (cases "parseList h xs")
  from "5.IH" [OF p "5.prems"(2,3)] obtain new where
    n: "h1 = h @ new" and c: "closedFrom lo h1" and vs: "list_all (valueFrom lo h1) vs" by blast
  from "5.prems"(1) p have r: "h' = h1 @ [CArr vs]" "v = HRef (length h1)" by auto
  have "cellFrom lo (h1 @ [CArr vs]) (CArr vs)"
    using vs by (auto simp: cellFrom_def list_all_iff intro: valueFrom_mono)
  with c have "closedFrom lo h'" unfolding r by (rule closedFrom_append)
  moreover have "valueFrom lo h' v" using r n "5.prems"(3) by (simp add: valueFrom_def)
  ultimately show ?case using r n by simp
next
  case (6 h kvs)
  obtain h1 fs where p: "parseFields h kvs = (h1, fs)" by (cases "parseFields h kvs")
  from "6.IH" [OF p "6.prems"(2,3)] obtain new where
    n: "h1 = h @ new" and c: "closedFrom lo h1"
    and fs: "list_all (\<lambda>(k, v). valueFrom lo h1 v) fs" by blast
  from "6.prems"(1) p have r: "h' = h1 @ [CObj fs]" "v = HRef (length h1)" by auto
  have "cellFrom lo (h1 @ [CObj fs]) (CObj fs)"
    using fs by (auto simp: cellFrom_def list_all_iff intro: valueFrom_mono)
  with c have "closedFrom lo h'" unfolding r by (rule closedFrom_append)
  moreover have "valueFrom lo h' v" using r n "6.prems"(3) by (simp add: valueFrom_def)
  ultimately show ?case using r n by simp
next
  case (8 h x xs)
  obtain h1 v1 where p1: "parse h x = (h1, v1)" by (cases "parse h x")
  obtain h2 vs2 where p2: "parseList h1 xs = (h2, vs2)" by (cases "parseList h1 xs")
  from "8.IH"(1) [OF p1 "8.prems"(2,3)] obtain n1 where
    n1: "h1 = h @ n1" and c1: "closedFrom lo h1" and v1: "valueFrom lo h1 v1" by blast
  have lo1: "lo \<le> length h1" using n1 "8.prems"(3) by simp
  from "8.IH"(2) [OF p1 [symmetric] refl p2 c1 lo1] obtain n2 where
    n2: "h2 = h1 @ n2" and c2: "closedFrom lo h2" and v2: "list_all (valueFrom lo h2) vs2" by blast
  from "8.prems"(1) p1 p2 have r: "h' = h2" "vs = v1 # vs2" by auto
  have "valueFrom lo h2 v1" using v1 n2 by (auto intro: valueFrom_mono)
  with r n1 n2 c2 v2 show ?case by simp
next
  case (10 h k x kvs)
  obtain h1 v1 where p1: "parse h x = (h1, v1)" by (cases "parse h x")
  obtain h2 fs2 where p2: "parseFields h1 kvs = (h2, fs2)" by (cases "parseFields h1 kvs")
  from "10.IH"(1) [OF p1 "10.prems"(2,3)] obtain n1 where
    n1: "h1 = h @ n1" and c1: "closedFrom lo h1" and v1: "valueFrom lo h1 v1" by blast
  have lo1: "lo \<le> length h1" using n1 "10.prems"(3) by simp
  from "10.IH"(2) [OF p1 [symmetric] refl p2 c1 lo1] obtain n2 where
    n2: "h2 = h1 @ n2" and c2: "closedFrom lo h2"
    and v2: "list_all (\<lambda>(k, v). valueFrom lo h2 v) fs2" by blast
  from "10.prems"(1) p1 p2 have r: "h' = h2" "fs = (k, v1) # fs2" by auto
  have "valueFrom lo h2 v1" using v1 n2 by (auto intro: valueFrom_mono)
  with r n1 n2 c2 v2 show ?case by simp
qed (auto simp: valueFrom_def)


lemma take_update_above: "lo \<le> a \<Longrightarrow> take lo (h[a := c]) = take lo h"
  by simp

lemma cell_update_frame:
  assumes "closedFrom lo h'" "cellFrom lo h' c" "lo \<le> a" "take lo h' = take lo h"
    "length h \<le> length h'"
  shows "take lo (h'[a := c]) = take lo h \<and> length h \<le> length (h'[a := c])
         \<and> closedFrom lo (h'[a := c])"
  using assms by (simp add: closedFrom_update)

lemma cellFrom_CArr: "cellFrom lo h (CArr vs) = list_all (valueFrom lo h) vs"
  by (simp add: cellFrom_def)

lemma cellFrom_CObj: "cellFrom lo h (CObj fs) = list_all (\<lambda>(k, v). valueFrom lo h v) fs"
  by (simp add: cellFrom_def)

lemma valueFrom_HNull [simp]: "valueFrom lo h HNull"
  by (simp add: valueFrom_def)
















lemma stringify_prefix:
  assumes pre: "take (length h) h' = h" and cl: "closedFrom 0 h"
  shows "valueFrom 0 h v \<Longrightarrow> stringify n h' v = stringify n h v"
proof (induction n arbitrary: v)
  case 0
  show ?case by simp
next
  case (Suc n)
  show ?case
  proof (cases v)
    case (HRef a)
    with Suc.prems have a: "a < length h" by (simp add: valueFrom_def)
    from pre have len: "length h \<le> length h'"
      by (metis length_take min.cobounded1)
    from pre a have same: "h' ! a = h ! a" by (metis nth_take)
    from cl a have cell: "cellFrom 0 h (h ! a)" by (simp add: closedFrom_cell)
    show ?thesis
    proof (cases "h ! a")
      case (CArr vs)
      with cell have "\<forall>x \<in> set vs. valueFrom 0 h x" by (simp add: cellFrom_CArr list_all_iff)
      then have m: "map (stringify n h') vs = map (stringify n h) vs"
        by (simp add: Suc.IH)
      from HRef a len same CArr show ?thesis by (simp add: m)
    next
      case (CObj fs)
      with cell have "\<forall>(k, x) \<in> set fs. valueFrom 0 h x" by (simp add: cellFrom_CObj list_all_iff)
      then have m: "map (\<lambda>(k, v). map_option (Pair k) (stringify n h' v)) fs
               = map (\<lambda>(k, v). map_option (Pair k) (stringify n h v)) fs"
        by (auto simp: Suc.IH)
      from HRef a len same CObj show ?thesis by (simp add: m)
    qed
  qed simp_all
qed








lemmas heap_defs =
  applyStateUpdate_heap_def isPlainObject_heap_def isContainer_heap_def addrOf_def
  getProp_heap_def putProp_heap_def newContainer_heap_def finalUpdate_heap_def
  closedFrom_def cellFrom_def valueFrom_def



subsection \<open>The JSON round trip\<close>

lemma those_map_Some:
  "those (map f xs) = Some ys \<longleftrightarrow> list_all2 (\<lambda>x y. f x = Some y) xs ys"
proof (induction xs arbitrary: ys)
  case Nil
  show ?case by auto
next
  case (Cons x xs)
  show ?case
    by (cases ys) (auto simp: Cons.IH split: option.splits)
qed


lemma stringify_mono:
  "stringify n h v = Some j \<Longrightarrow> n \<le> m \<Longrightarrow> stringify m h v = Some j"
proof (induction n arbitrary: m v j)
  case 0
  then show ?case by simp
next
  case (Suc n)
  from Suc.prems(2) obtain m' where m: "m = Suc m'" "n \<le> m'" by (cases m) auto
  show ?case
  proof (cases v)
    case (HRef a)
    show ?thesis
    proof (cases "a < length h")
      case False
      with Suc.prems HRef show ?thesis by simp
    next
      case True
      show ?thesis
      proof (cases "h ! a")
        case (CArr vs)
        with Suc.prems(1) HRef True obtain js where
          js: "those (map (stringify n h) vs) = Some js" "j = JArr js"
          by (cases "those (map (stringify n h) vs)") simp_all
        then have "list_all2 (\<lambda>x y. stringify n h x = Some y) vs js"
          by (simp add: those_map_Some)
        then have "list_all2 (\<lambda>x y. stringify m' h x = Some y) vs js"
          by (rule list_all2_mono) (rule Suc.IH [OF _ m(2)])
        then have "those (map (stringify m' h) vs) = Some js"
          by (simp add: those_map_Some)
        with HRef True CArr js(2) m(1) show ?thesis by simp
      next
        case (CObj fs)
        let ?f = "\<lambda>n (k, v). map_option (Pair k) (stringify n h v)"
        from Suc.prems(1) HRef True CObj obtain js where
          js: "those (map (?f n) fs) = Some js" "j = JObj js"
          by (cases "those (map (?f n) fs)") simp_all
        then have "list_all2 (\<lambda>x y. ?f n x = Some y) fs js"
          by (simp add: those_map_Some)
        moreover have "?f m' x = Some y" if "?f n x = Some y" for x y
        proof -
          obtain k u where x: "x = (k, u)" by (cases x)
          with that obtain ju where ju: "stringify n h u = Some ju" "y = (k, ju)"
            by (cases "stringify n h u") auto
          from ju(1) m(2) have "stringify m' h u = Some ju" by (rule Suc.IH)
          with x ju(2) show ?thesis by simp
        qed
        ultimately have "list_all2 (\<lambda>x y. ?f m' x = Some y) fs js"
          by (rule list_all2_mono)
        then have "those (map (?f m') fs) = Some js"
          by (simp add: those_map_Some)
        with HRef True CObj js(2) m(1) show ?thesis by simp
      qed
    qed
  qed (use Suc.prems m in simp_all)
qed


lemma prefix_append: "take (length h) (h @ new) = h"
  by simp

text \<open>
  The round trip that \<open>jsonClone\<close> stands for: what \<^verbatim>\<open>JSON.parse\<close> builds from a tree
  prints, with enough fuel, as that tree.
\<close>

lemma parse_stringify:
  "parse h j = (h', v) \<Longrightarrow> closedFrom 0 h \<Longrightarrow> \<exists>n. stringify n h' v = Some j"
  "parseList h xs = (h', vs) \<Longrightarrow> closedFrom 0 h \<Longrightarrow>
     \<exists>n. list_all2 (\<lambda>v x. stringify n h' v = Some x) vs xs"
  "parseFields h kvs = (h', fs) \<Longrightarrow> closedFrom 0 h \<Longrightarrow>
     \<exists>n. list_all2 (\<lambda>f kv. fst f = fst kv \<and> stringify n h' (snd f) = Some (snd kv)) fs kvs"
proof (induction h j and h xs and h kvs arbitrary: h' v and h' vs and h' fs
       rule: parse_parseList_parseFields.induct)
  case (1 h)
  then have "stringify (Suc 0) h' v = Some JNull" by auto
  then show ?case ..
next
  case (2 h b)
  then have "stringify (Suc 0) h' v = Some (JBool b)" by auto
  then show ?case ..
next
  case (3 h r)
  then have "stringify (Suc 0) h' v = Some (JNum r)" by auto
  then show ?case ..
next
  case (4 h s)
  then have "stringify (Suc 0) h' v = Some (JStr s)" by auto
  then show ?case ..
next
  case (5 h xs)
  obtain h1 vs where p: "parseList h xs = (h1, vs)" by (cases "parseList h xs")
  from "5.IH" [OF p "5.prems"(2)] obtain n where
    n: "list_all2 (\<lambda>v x. stringify n h1 v = Some x) vs xs" by blast
  from parse_frame(2) [OF p "5.prems"(2)] have
    c1: "closedFrom 0 h1" and v1: "list_all (valueFrom 0 h1) vs" by simp_all
  from "5.prems"(1) p have r: "h' = h1 @ [CArr vs]" "v = HRef (length h1)" by auto
  have "list_all2 (\<lambda>v x. stringify n h' v = Some x) vs xs"
    using n
  proof (rule list.rel_mono_strong)
    fix u x assume u: "u \<in> set vs" and s: "stringify n h1 u = Some x"
    from u v1 have "valueFrom 0 h1 u" by (simp add: list_all_iff)
    with s show "stringify n h' u = Some x"
      unfolding r using stringify_prefix [OF prefix_append c1] by simp
  qed
  then have "those (map (stringify n h') vs) = Some xs" by (simp add: those_map_Some)
  then have "stringify (Suc n) h' v = Some (JArr xs)" using r by simp
  then show ?case ..
next
  case (6 h kvs)
  obtain h1 fs where p: "parseFields h kvs = (h1, fs)" by (cases "parseFields h kvs")
  from "6.IH" [OF p "6.prems"(2)] obtain n where
    n: "list_all2 (\<lambda>f kv. fst f = fst kv \<and> stringify n h1 (snd f) = Some (snd kv)) fs kvs"
    by blast
  from parse_frame(3) [OF p "6.prems"(2)] have
    c1: "closedFrom 0 h1" and v1: "list_all (\<lambda>(k, v). valueFrom 0 h1 v) fs" by simp_all
  from "6.prems"(1) p have r: "h' = h1 @ [CObj fs]" "v = HRef (length h1)" by auto
  have "list_all2 (\<lambda>f kv. (case f of (k, v) \<Rightarrow> map_option (Pair k) (stringify n h' v)) = Some kv)
          fs kvs"
    using n
  proof (rule list.rel_mono_strong)
    fix f kv
    assume a: "fst f = fst kv \<and> stringify n h1 (snd f) = Some (snd kv)" "f \<in> set fs"
    from a(2) v1 have "valueFrom 0 h1 (snd f)" by (auto simp: list_all_iff)
    then have "stringify n h' (snd f) = stringify n h1 (snd f)"
      unfolding r using stringify_prefix [OF prefix_append c1] by simp
    with a(1) show "(case f of (k, v) \<Rightarrow> map_option (Pair k) (stringify n h' v)) = Some kv"
      by (cases f; cases kv) simp
  qed
  then have "those (map (\<lambda>(k, v). map_option (Pair k) (stringify n h' v)) fs) = Some kvs"
    by (simp add: those_map_Some)
  then have "stringify (Suc n) h' v = Some (JObj kvs)" using r by simp
  then show ?case ..
next
  case (7 h)
  then show ?case by simp
next
  case (8 h x xs)
  obtain h1 v1 where p1: "parse h x = (h1, v1)" by (cases "parse h x")
  obtain h2 vs2 where p2: "parseList h1 xs = (h2, vs2)" by (cases "parseList h1 xs")
  from "8.IH"(1) [OF p1 "8.prems"(2)] obtain n1 where n1: "stringify n1 h1 v1 = Some x" by blast
  from parse_frame(1) [OF p1 "8.prems"(2)] have
    c1: "closedFrom 0 h1" and vf: "valueFrom 0 h1 v1" by simp_all
  from "8.IH"(2) [OF p1 [symmetric] refl p2 c1] obtain n2 where
    n2: "list_all2 (\<lambda>v x. stringify n2 h2 v = Some x) vs2 xs" by blast
  from parse_frame(2) [OF p2 c1] obtain new where e2: "h2 = h1 @ new" by auto
  from "8.prems"(1) p1 p2 have r: "h' = h2" "vs = v1 # vs2" by auto
  have "stringify n1 h2 v1 = Some x"
    unfolding e2 using stringify_prefix [OF prefix_append c1 vf] n1 by simp
  then have a: "stringify (max n1 n2) h2 v1 = Some x" by (rule stringify_mono) simp
  have b: "list_all2 (\<lambda>v x. stringify (max n1 n2) h2 v = Some x) vs2 xs"
    using n2 by (rule list_all2_mono) (auto intro: stringify_mono)
  from a b r have "list_all2 (\<lambda>v x. stringify (max n1 n2) h' v = Some x) vs (x # xs)" by simp
  then show ?case ..
next
  case (9 h)
  then show ?case by simp
next
  case (10 h k x kvs)
  obtain h1 v1 where p1: "parse h x = (h1, v1)" by (cases "parse h x")
  obtain h2 fs2 where p2: "parseFields h1 kvs = (h2, fs2)" by (cases "parseFields h1 kvs")
  from "10.IH"(1) [OF p1 "10.prems"(2)] obtain n1 where n1: "stringify n1 h1 v1 = Some x" by blast
  from parse_frame(1) [OF p1 "10.prems"(2)] have
    c1: "closedFrom 0 h1" and vf: "valueFrom 0 h1 v1" by simp_all
  from "10.IH"(2) [OF p1 [symmetric] refl p2 c1] obtain n2 where
    n2: "list_all2 (\<lambda>f kv. fst f = fst kv \<and> stringify n2 h2 (snd f) = Some (snd kv)) fs2 kvs"
    by blast
  from parse_frame(3) [OF p2 c1] obtain new where e2: "h2 = h1 @ new" by auto
  from "10.prems"(1) p1 p2 have r: "h' = h2" "fs = (k, v1) # fs2" by auto
  have "stringify n1 h2 v1 = Some x"
    unfolding e2 using stringify_prefix [OF prefix_append c1 vf] n1 by simp
  then have a: "stringify (max n1 n2) h2 v1 = Some x" by (rule stringify_mono) simp
  have b: "list_all2 (\<lambda>f kv. fst f = fst kv \<and> stringify (max n1 n2) h2 (snd f) = Some (snd kv))
             fs2 kvs"
    using n2 by (rule list_all2_mono) (auto intro: stringify_mono)
  from a b r have
    "list_all2 (\<lambda>f kv. fst f = fst kv \<and> stringify (max n1 n2) h' (snd f) = Some (snd kv))
       fs ((k, x) # kvs)"
    by simp
  then show ?case ..
qed


lemma finalUpdate_heap_raises:
  "finalUpdate_heap rt h cur key newValue = (h', HRaised e) \<Longrightarrow> e = RangeError"
  by (auto simp: finalUpdate_heap_def Let_def
      split: if_splits cell.splits json.splits option.splits arrayKey.splits prod.splits)

lemma walk_heap_raises:
  "walk_heap rt h cur upd = (h', HRaised e) \<Longrightarrow> e = RangeError"
proof (induction rt h cur upd arbitrary: h' rule: walk_heap.induct)
  case (1 rt h currentObject seg nextElement x rest)
  let ?a = "addrOf currentObject"
  let ?pk = "normalizePropertyKey seg"
  let ?hn = "putProp_heap rt (h @ [newContainer_heap nextElement]) ?a ?pk (HRef (length h))"
  let ?step = "case getProp_heap rt h ?a ?pk of
                 None \<Rightarrow> (?hn, HRef (length h))
               | Some c \<Rightarrow> if c = HNull then (?hn, HRef (length h)) else (h, c)"
  obtain h1 child where st: "?step = (h1, child)" by (cases ?step)
  from "1.prems" st have c: "isContainer_heap h currentObject" "child \<noteq> HNull"
    and w: "walk_heap rt h1 child (nextElement # x # rest) = (h', HRaised e)"
    by (auto simp: Let_def split: if_splits)
  show ?case
    by (rule "1.IH" [OF _ refl refl refl st [symmetric] c(2) w]) (use c(1) in simp)
next
  case (2 rt h currentObject key newValue)
  then show ?case by (simp add: finalUpdate_heap_raises)
qed simp_all

text \<open>
  On a document built from a JSON tree the copy of line 99 succeeds, given enough fuel:
  the call does not end in the \<^verbatim>\<open>TypeError\<close> of a cyclic value.
\<close>

lemma applyStateUpdate_heap_enough_fuel:
  assumes p: "parse h j = (h', D)" and cl: "closedFrom 0 h"
  shows "\<exists>n. \<forall>fuel \<ge> n. snd (applyStateUpdate_heap rt fuel h' D op) \<noteq> Inl TypeError"
proof -
  from parse_stringify(1) [OF p cl] obtain n0 where n0: "stringify n0 h' D = Some j" by blast
  have "snd (applyStateUpdate_heap rt fuel h' D op) \<noteq> Inl TypeError" if f: "max n0 1 \<le> fuel" for fuel
  proof (cases "\<not> Array_isArray op \<or> length (arrayElements op) < 2")
    case True
    then show ?thesis by (simp add: applyStateUpdate_heap_def)
  next
    case False
    let ?init = "if isPlainObject_heap h' D then (h', D) else (h' @ [CObj []], HRef (length h'))"
    obtain h1 cs where init: "?init = (h1, cs)" by (cases ?init)
    have "\<exists>doc. stringify fuel h1 cs = Some doc"
    proof (cases "isPlainObject_heap h' D")
      case True
      with init have "h1 = h'" "cs = D" by simp_all
      moreover from f have "n0 \<le> fuel" by simp
      with n0 have "stringify fuel h' D = Some j" by (rule stringify_mono)
      ultimately show ?thesis by simp
    next
      case False
      with init have e: "h1 = h' @ [CObj []]" "cs = HRef (length h')" by auto
      from f obtain m where "fuel = Suc m" by (cases fuel) auto
      with e show ?thesis by simp
    qed
    then obtain doc where d: "stringify fuel h1 cs = Some doc" by blast
    obtain h2 state where ps: "parse h1 doc = (h2, state)" by (cases "parse h1 doc")
    obtain h3 out where w: "walk_heap rt h2 state (arrayElements op) = (h3, out)"
      by (cases "walk_heap rt h2 state (arrayElements op)")
    from False init d ps w have
      "snd (applyStateUpdate_heap rt fuel h' D op)
         = (case out of HDone \<Rightarrow> Inr state | HBlocked \<Rightarrow> Inr cs | HRaised e \<Rightarrow> Inl e)"
      by (simp add: applyStateUpdate_heap_def split: outcome_heap.splits)
    with w show ?thesis
      by (cases out) (auto dest: walk_heap_raises)
  qed
  then show ?thesis by blast
qed

text \<open>
  On examples the two models agree: reading back the heap after the heap patcher gives the tree
  that the patcher on trees returns, and a raised error is the same error.  The three runs create
  a list on the way, are stopped by a number on the way, and raise on the length of a list.
\<close>

lemma example_heap_agreement:
  "(case applyStateUpdate_heap exampleRuntime 4 [CArr [HNum 1, HNum 2], CObj [(''a'', HRef 0)]] (HRef 1)
           (JArr [JStr ''b'', JNum 0, JStr ''c'', JNull]) of
      (h', r) \<Rightarrow> map_sum id (stringify 4 h') r)
   = map_sum id Some (applyStateUpdate exampleRuntime (JObj [(''a'', JArr [JNum 1, JNum 2])])
           (JArr [JStr ''b'', JNum 0, JStr ''c'', JNull]))"
  "(case applyStateUpdate_heap exampleRuntime 4 [CArr [HNum 1, HNum 2], CObj [(''a'', HRef 0)]] (HRef 1)
           (JArr [JStr ''a'', JNum 0, JStr ''c'', JNum 3]) of
      (h', r) \<Rightarrow> map_sum id (stringify 4 h') r)
   = map_sum id Some (applyStateUpdate exampleRuntime (JObj [(''a'', JArr [JNum 1, JNum 2])])
           (JArr [JStr ''a'', JNum 0, JStr ''c'', JNum 3]))"
  "(case applyStateUpdate_heap exampleRuntime 4 [CArr [HNum 1, HNum 2], CObj [(''a'', HRef 0)]] (HRef 1)
           (JArr [JStr ''a'', JStr ''length'', JNum (- 5)]) of
      (h', r) \<Rightarrow> map_sum id (stringify 4 h') r)
   = map_sum id Some (applyStateUpdate exampleRuntime (JObj [(''a'', JArr [JNum 1, JNum 2])])
           (JArr [JStr ''a'', JStr ''length'', JNum (- 5)]))"
  by (simp_all add: heap_defs patch_defs eval_nat_numeral)

end
